theory Spec2Isabelle
  imports
    Main
    "HOL-Library.Char_ord"
    "HOL-Library.List_Lexorder"
    "HOL-Library.AList"
    "HOL-Library.FSet"
begin

section \<open>The mod manager of \<^verbatim>\<open>src/main.py\<close>\<close>

text \<open>
  The class \<^verbatim>\<open>Civ7ModManager\<close> keeps a dictionary \<^verbatim>\<open>self.mods\<close> from folder names to
  \<^verbatim>\<open>ModInfo\<close> objects, a tree widget with one item per loaded mod, and three directories
  (mod storage, the game's mod directory, the profile directory). The model below keeps
  the dictionary as an association list in insertion order, the tree as the list of the
  folder names its items carry together with the list of the texts in their first column,
  the directories as association lists from entry names to nodes, and the logger and the
  message boxes as one list of events. Progress bar, labels, the other column texts, check
  marks of tree items and the sorting of the tree are display only: nothing in the
  modelled operations reads them, and they are left out. What the operations take from
  outside the class (the iteration order of a set, \<^verbatim>\<open>str.lower\<close>, the text of an exception,
  whether a file can be opened, the classes of the other modules) is a parameter.
\<close>

subsection \<open>Data\<close>

record mod_metadata =
  display_name :: string
  mod_id :: string
  version :: string
  authors :: string
  affects_saves :: bool
  dependencies :: "(string \<times> string) list"
  affected_files :: "string fset"

record mod_info =
  folder_name :: string
  path :: string
  metadata :: mod_metadata
  enabled :: bool
  conflicts :: "string \<rightharpoonup> string"

text \<open>
  A file that is \<open>Locked\<close> can be neither read nor removed (it is held open by another
  process). A directory tree is kept flat: the relative paths of the files below it, in
  the order the directory is scanned.
\<close>

datatype file_state = File string | Locked

type_synonym tree = "(string \<times> file_state) list"

datatype node = FileNode file_state | DirNode tree

type_synonym directory = "(string \<times> node) list"

datatype profile_file = Json "string \<rightharpoonup> bool" | Unparsable

datatype exn =
    FileNotFoundError string
  | NotADirectoryError string
  | FileExistsError string
  | PermissionError string
  | ShutilError "string list"
  | JSONDecodeError string
  | IndexError

datatype level = INFO | WARNING | ERROR

datatype box = Information | Warning | Critical

datatype event = Log level string | MessageBox box string string

record manager =
  mods :: "(string \<times> mod_info) list"
  tree_items :: "string list"
  tree_texts :: "string list"
  storage :: "directory option"
  game_mods :: "directory option"
  profiles :: "(string \<times> profile_file) list"
  events :: "event list"

record tree_item =
  user_data :: "string option"
  checked :: bool

text \<open>
  The keys of a Python dictionary are pairwise different; \<open>registry_ok\<close> says so of the
  association list that stands for \<^verbatim>\<open>self.mods\<close>.
\<close>

definition registry_ok :: "(string \<times> mod_info) list \<Rightarrow> bool" where
  "registry_ok ms \<longleftrightarrow> distinct (map fst ms)"

subsection \<open>Logging, messages, strings\<close>

definition logger :: "level \<Rightarrow> string \<Rightarrow> manager \<Rightarrow> manager" where
  "logger l msg s = s\<lparr>events := events s @ [Log l msg]\<rparr>"

definition message_box :: "box \<Rightarrow> string \<Rightarrow> string \<Rightarrow> manager \<Rightarrow> manager" where
  "message_box b title msg s = s\<lparr>events := events s @ [MessageBox b title msg]\<rparr>"

text \<open>
  The text of an exception, \<^verbatim>\<open>str(e)\<close>, depends on the platform; the operations that log it
  take the rendering as the parameter \<open>str\<close>.
\<close>

fun string_of_nat :: "nat \<Rightarrow> string" where
  "string_of_nat n =
     (if n < 10 then [''0123456789'' ! n]
      else string_of_nat (n div 10) @ [''0123456789'' ! (n mod 10)])"

declare string_of_nat.simps [simp del]

text \<open>A name between single quotes, as in \<^verbatim>\<open>f"Profile '{name}' saved successfully!"\<close>.\<close>

definition quoted :: "string \<Rightarrow> string" where
  "quoted name = CHR 0x27 # name @ [CHR 0x27]"

subsection \<open>\<^verbatim>\<open>_update_conflicts\<close>\<close>

text \<open>
  Python does not fix the order in which a set is iterated. The order in which the loop
  \<^verbatim>\<open>for file in common_files\<close> visits the intersection built for the mod \<open>mod_name\<close> and the
  other mod \<open>other_name\<close> is a parameter of the model; an \<open>iteration_order\<close> visits each
  element of the set once.
\<close>

type_synonym set_order = "string \<Rightarrow> string \<Rightarrow> string fset \<Rightarrow> string list"

definition iteration_order :: "set_order \<Rightarrow> bool" where
  "iteration_order it \<longleftrightarrow>
     (\<forall>mod_name other_name S.
        distinct (it mod_name other_name S) \<and> fset_of_list (it mod_name other_name S) = S)"

definition enabled_mods :: "(string \<times> mod_info) list \<Rightarrow> (string \<times> mod_info) list" where
  "enabled_mods ms = filter (\<lambda>(name, m). enabled m) ms"

definition common_files :: "mod_info \<Rightarrow> mod_info \<Rightarrow> string fset" where
  "common_files m other_mod =
     affected_files (metadata m) |\<inter>| affected_files (metadata other_mod)"

text \<open>The body of the loop over \<^verbatim>\<open>enabled_mods.items()\<close>, for one other mod.\<close>

definition note_conflicts ::
  "set_order \<Rightarrow> string \<Rightarrow> mod_info \<Rightarrow> (string \<rightharpoonup> string) \<Rightarrow> string \<times> mod_info \<Rightarrow> (string \<rightharpoonup> string)"
where
  "note_conflicts it mod_name m cs other =
     (case other of (other_name, other_mod) \<Rightarrow>
        if other_name \<noteq> mod_name then
          foldl (\<lambda>cs file. cs(display_name (metadata other_mod) \<mapsto> file)) cs
            (it mod_name other_name (common_files m other_mod))
        else cs)"

text \<open>
  The conflicts of one mod after the first loop: cleared, then filled when the mod is
  enabled. The loop writes only the \<^verbatim>\<open>conflicts\<close> of the mod it is at and reads only
  \<^verbatim>\<open>enabled\<close> and \<^verbatim>\<open>metadata\<close> of the others, so each mod's new conflicts are a function of
  the registry before the loop.
\<close>

definition conflicts_of ::
  "set_order \<Rightarrow> (string \<times> mod_info) list \<Rightarrow> string \<Rightarrow> mod_info \<Rightarrow> (string \<rightharpoonup> string)"
where
  "conflicts_of it ms mod_name m =
     (if enabled m then foldl (note_conflicts it mod_name m) Map.empty (enabled_mods ms)
      else Map.empty)"

definition update_conflicts ::
  "set_order \<Rightarrow> (string \<times> mod_info) list \<Rightarrow> (string \<times> mod_info) list"
where
  "update_conflicts it ms =
     map (\<lambda>(mod_name, m). (mod_name, m\<lparr>conflicts := conflicts_of it ms mod_name m\<rparr>)) ms"

text \<open>
  The second loop of \<^verbatim>\<open>_update_conflicts\<close> writes the conflict column of the tree items. It
  looks up the item of each mod with \<^verbatim>\<open>findItems(display_name, MatchExactly, 0)[0]\<close>, which
  raises \<open>IndexError\<close> when no item has the display name in its first column. It changes
  nothing of the registry; whether it raises is what \<open>show_conflicts\<close> gives, for the
  manager after the first loop.
\<close>

definition show_conflicts :: "manager \<Rightarrow> exn option" where
  "show_conflicts s =
     (if list_all (\<lambda>(mod_name, m). display_name (metadata m) \<in> set (tree_texts s)) (mods s)
      then None else Some IndexError)"

subsection \<open>\<^verbatim>\<open>_on_mod_toggle\<close>, \<^verbatim>\<open>enable_all_mods\<close>, \<^verbatim>\<open>disable_all_mods\<close>\<close>

text \<open>
  Setting the check mark of a tree item makes the widget call \<^verbatim>\<open>_on_mod_toggle\<close> for that
  item. Where \<^verbatim>\<open>enable_all_mods\<close>, \<^verbatim>\<open>disable_all_mods\<close> and \<^verbatim>\<open>load_profile\<close> set a check mark, that
  call writes the flag the loop writes itself right after and recomputes the conflicts,
  which the operation does again at its end; the nested call is left out of the model.

  Nothing in \<^verbatim>\<open>_on_mod_toggle\<close>, \<^verbatim>\<open>enable_all_mods\<close> and \<^verbatim>\<open>disable_all_mods\<close> catches the
  \<open>IndexError\<close> of the second loop of \<^verbatim>\<open>_update_conflicts\<close>: it ends the operation there, after
  the registry has been written. The three models give the manager as the operation
  leaves it; for the last two this is the manager without the closing log line.
\<close>

definition set_enabled :: "string \<Rightarrow> bool \<Rightarrow> (string \<times> mod_info) list \<Rightarrow> (string \<times> mod_info) list" where
  "set_enabled name b ms = AList.map_entry name (\<lambda>m. m\<lparr>enabled := b\<rparr>) ms"

definition on_mod_toggle :: "set_order \<Rightarrow> tree_item option \<Rightarrow> int \<Rightarrow> manager \<Rightarrow> manager" where
  "on_mod_toggle it item column s =
     (case item of
        None \<Rightarrow> s
      | Some i \<Rightarrow>
          if column \<noteq> 0 then s
          else
            (case user_data i of
               None \<Rightarrow> s
             | Some name \<Rightarrow>
                 if name = [] then s
                 else
                   (case map_of (mods s) name of
                      None \<Rightarrow> s
                    | Some m \<Rightarrow>
                        s\<lparr>mods := update_conflicts it (set_enabled name (checked i) (mods s))\<rparr>)))"

definition set_all :: "bool \<Rightarrow> string list \<Rightarrow> (string \<times> mod_info) list \<Rightarrow> (string \<times> mod_info) list" where
  "set_all b items ms =
     fold (\<lambda>name ms. if name \<in> fst ` set ms then set_enabled name b ms else ms) items ms"

definition enable_all_mods :: "set_order \<Rightarrow> manager \<Rightarrow> manager" where
  "enable_all_mods it s =
     (let s1 = s\<lparr>mods := update_conflicts it (set_all True (tree_items s) (mods s))\<rparr>
      in case show_conflicts s1 of
           Some e \<Rightarrow> s1
         | None \<Rightarrow> logger INFO ''All mods enabled'' s1)"

definition disable_all_mods :: "set_order \<Rightarrow> manager \<Rightarrow> manager" where
  "disable_all_mods it s =
     (let s1 = s\<lparr>mods := update_conflicts it (set_all False (tree_items s) (mods s))\<rparr>
      in case show_conflicts s1 of
           Some e \<Rightarrow> s1
         | None \<Rightarrow> logger INFO ''All mods disabled'' s1)"

subsection \<open>\<^verbatim>\<open>refresh_mod_list\<close>\<close>

text \<open>
  Modelled from the spec: the class \<^verbatim>\<open>ModInfo\<close> (module \<^verbatim>\<open>modinfo\<close>) is not among the
  sources. By the data model of the specification, the record built for a mod folder has
  the on-disk directory name as its \<open>folder_name\<close>, the directory as its \<open>path\<close>, the
  metadata read by the manifest parser, no conflicts yet, and an \<open>enabled\<close> flag whose
  initial value the specification leaves to the implementation. The parser and the
  initial flag are parameters; a failing parser makes the constructor raise.
  A path below the storage directory is written as its last component.
\<close>

type_synonym parser = "string \<Rightarrow> tree \<Rightarrow> string + mod_metadata"

definition ModInfo :: "parser \<Rightarrow> bool \<Rightarrow> string \<Rightarrow> tree \<Rightarrow> string + mod_info" where
  "ModInfo parse initially name t =
     (case parse name t of
        Inl err \<Rightarrow> Inl err
      | Inr md \<Rightarrow>
          Inr \<lparr>folder_name = name, path = name, metadata = md, enabled = initially,
               conflicts = Map.empty\<rparr>)"

text \<open>\<^verbatim>\<open>[d for d in self.storage_path.iterdir() if d.is_dir()]\<close>\<close>

fun mod_dirs :: "directory \<Rightarrow> (string \<times> tree) list" where
  "mod_dirs [] = []"
| "mod_dirs ((name, DirNode t) # es) = (name, t) # mod_dirs es"
| "mod_dirs ((name, FileNode f) # es) = mod_dirs es"

text \<open>
  One round of the loop over the sorted directories. The class \<^verbatim>\<open>ModTreeItem\<close> (module
  \<^verbatim>\<open>ui_components\<close>) is not among the sources either: the text that the item built for a
  mod shows in its first column is the parameter \<open>label\<close>. Building the item and adding it
  to the widget is taken not to fail.
\<close>

definition load_mod ::
  "parser \<Rightarrow> bool \<Rightarrow> (mod_info \<Rightarrow> string) \<Rightarrow> string \<times> tree \<Rightarrow> manager \<Rightarrow> manager"
where
  "load_mod parse initially label mod_item s =
     (case mod_item of (name, t) \<Rightarrow>
        (case ModInfo parse initially name t of
           Inr mod_info \<Rightarrow>
             logger INFO (''Loaded mod: '' @ folder_name mod_info)
               (s\<lparr>mods := AList.update (folder_name mod_info) mod_info (mods s),
                  tree_items := tree_items s @ [folder_name mod_info],
                  tree_texts := tree_texts s @ [label mod_info]\<rparr>)
         | Inl mod_error \<Rightarrow>
             logger ERROR (''Error loading mod '' @ name @ '': '' @ mod_error) s))"

text \<open>
  Listing the storage directory is taken not to fail when the directory exists, so the
  outer \<^verbatim>\<open>except\<close> of the source has no branch here. The sort key is the folder name under
  Python's \<^verbatim>\<open>str.lower\<close>, the parameter \<open>lower\<close>.
\<close>

definition refresh_mod_list ::
  "(string \<Rightarrow> string) \<Rightarrow> parser \<Rightarrow> bool \<Rightarrow> (mod_info \<Rightarrow> string) \<Rightarrow> manager \<Rightarrow> manager"
where
  "refresh_mod_list lower parse initially label s =
     (let s1 = (logger INFO ''Refreshing mod list'' s)\<lparr>tree_items := [], tree_texts := [], mods := []\<rparr>
      in (case storage s1 of
            None \<Rightarrow> logger WARNING ''Storage directory not found!'' s1
          | Some es \<Rightarrow>
              if mod_dirs es = [] then logger INFO ''No mod directories found'' s1
              else fold (load_mod parse initially label)
                     (sort_key (\<lambda>(name, t). lower name) (mod_dirs es)) s1))"

subsection \<open>\<^verbatim>\<open>deploy_mods\<close>\<close>

text \<open>
  \<^verbatim>\<open>shutil.rmtree\<close> removes the files of a tree one after the other and raises at the first
  one it cannot remove; what it had not reached stays.
\<close>

definition rmtree :: "tree \<Rightarrow> tree option" where
  "rmtree t = (case dropWhile (\<lambda>(p, f). f \<noteq> Locked) t of [] \<Rightarrow> None | rest \<Rightarrow> Some rest)"

fun clear_directory :: "directory \<Rightarrow> exn option \<times> directory" where
  "clear_directory [] = (None, [])"
| "clear_directory ((name, DirNode t) # es) =
     (case rmtree t of
        None \<Rightarrow> clear_directory es
      | Some rest \<Rightarrow> (Some (PermissionError name), (name, DirNode rest) # es))"
| "clear_directory ((name, FileNode f) # es) =
     (if f = Locked then (Some (PermissionError name), (name, FileNode f) # es)
      else clear_directory es)"

text \<open>
  \<^verbatim>\<open>shutil.copytree(src, dst)\<close> scans the source first, then creates the destination
  directory (and fails when it exists), then copies file by file; files that cannot be
  copied are collected and reported in one exception at the end, after everything else
  has been copied.
\<close>

definition copytree :: "node option \<Rightarrow> string \<Rightarrow> directory \<Rightarrow> exn option \<times> directory" where
  "copytree src name dir =
     (case src of
        None \<Rightarrow> (Some (FileNotFoundError name), dir)
      | Some (FileNode f) \<Rightarrow> (Some (NotADirectoryError name), dir)
      | Some (DirNode t) \<Rightarrow>
          if name \<in> fst ` set dir then (Some (FileExistsError name), dir)
          else
            let copied = filter (\<lambda>(p, f). f \<noteq> Locked) t;
                failed = filter (\<lambda>(p, f). f = Locked) t
            in (if failed = [] then None else Some (ShutilError (map fst failed)),
                dir @ [(name, DirNode copied)]))"

definition stored :: "manager \<Rightarrow> string \<Rightarrow> node option" where
  "stored s p = (case storage s of None \<Rightarrow> None | Some es \<Rightarrow> map_of es p)"

text \<open>
  \<^verbatim>\<open>copytree\<close> creates the missing parents of its destination, so a missing game directory
  is an empty one to it.
\<close>

definition game_dir :: "manager \<Rightarrow> directory" where
  "game_dir s = (case game_mods s of None \<Rightarrow> [] | Some d \<Rightarrow> d)"

text \<open>The loop over the enabled mods; it ends at the first copy that raises.\<close>

fun copy_mods :: "(string \<times> mod_info) list \<Rightarrow> manager \<Rightarrow> exn option \<times> manager" where
  "copy_mods [] s = (None, s)"
| "copy_mods ((name, m) # rest) s =
     (let s1 = logger INFO (''Deploying mod: '' @ name) s
      in (case copytree (stored s1 (path m)) name (game_dir s1) of
            (Some e, d) \<Rightarrow> (Some e, s1\<lparr>game_mods := Some d\<rparr>)
          | (None, d) \<Rightarrow> copy_mods rest (s1\<lparr>game_mods := Some d\<rparr>)))"

text \<open>
  The body of the \<^verbatim>\<open>try\<close>: the exception that leaves it, if any, and the state then.
  \<open>reply\<close> is the answer to the confirmation dialog.
\<close>

definition deploy_try :: "bool \<Rightarrow> manager \<Rightarrow> exn option \<times> manager" where
  "deploy_try reply s =
     (case game_mods s of
        None \<Rightarrow>
          (None, message_box Critical ''Error'' ''Game mods directory does not exist''
                   (logger ERROR ''Game mods directory does not exist'' s))
      | Some d \<Rightarrow>
          if \<not> reply then (None, s)
          else
            let total_mods = length (enabled_mods (mods s));
                s1 = logger INFO (''Starting deployment of '' @ string_of_nat total_mods @ '' mods'') s;
                s2 = logger INFO ''Clearing game mods directory'' s1
            in (case clear_directory d of
                 (Some e, d') \<Rightarrow> (Some e, s2\<lparr>game_mods := Some d'\<rparr>)
               | (None, d') \<Rightarrow>
                   (case copy_mods (enabled_mods (mods s)) (s2\<lparr>game_mods := Some d'\<rparr>) of
                      (Some e, s3) \<Rightarrow> (Some e, s3)
                    | (None, s3) \<Rightarrow>
                        let success_msg =
                              ''Successfully deployed '' @ string_of_nat total_mods @ '' mod''
                                @ (if total_mods \<noteq> 1 then ''s'' else []) @ '' to game directory''
                        in (None, message_box Information ''Deploy Complete'' success_msg
                                    (logger INFO success_msg s3)))))"

definition deploy_mods :: "(exn \<Rightarrow> string) \<Rightarrow> bool \<Rightarrow> manager \<Rightarrow> manager" where
  "deploy_mods str reply s =
     (case deploy_try reply s of
        (None, s') \<Rightarrow> s'
      | (Some e, s') \<Rightarrow>
          message_box Critical ''Deploy Error'' (''Failed to deploy mods: '' @ str e)
            (logger ERROR (''Failed to deploy mods: '' @ str e) s'))"

subsection \<open>\<^verbatim>\<open>save_profile\<close>, \<^verbatim>\<open>load_profile\<close>\<close>

text \<open>
  The profile directory is kept as the list of its \<^verbatim>\<open>.json\<close> files by stem. Writing and
  reading a dictionary from strings to booleans through \<^verbatim>\<open>json\<close> gives the dictionary
  back, so a file holds the dictionary itself. Whether \<^verbatim>\<open>open(profile_path, 'w')\<close> succeeds
  depends on the name and on the file system: \<open>opens name\<close> is the exception it raises, if
  any, and nothing is written then. Writing the dictionary to the opened file is taken
  not to fail. The dialog argument of both operations is what the input dialog returns.
\<close>

definition save_profile ::
  "(exn \<Rightarrow> string) \<Rightarrow> (string \<Rightarrow> exn option) \<Rightarrow> string \<times> bool \<Rightarrow> manager \<Rightarrow> manager"
where
  "save_profile str opens dialog s =
     (case dialog of (name, ok) \<Rightarrow>
        if \<not> ok \<or> name = [] then s
        else
          let s1 = logger INFO (''Saving profile: '' @ name) s
          in if mods s1 = [] then
               message_box Warning ''Warning'' ''No mods available to save in profile.''
                 (logger WARNING ''No mods to save in profile'' s1)
             else
               let profile_data = map_of (map (\<lambda>(folder_name, m). (folder_name, enabled m)) (mods s1))
               in (case opens name of
                     Some e \<Rightarrow>
                       message_box Critical ''Error'' (''Failed to save profile: '' @ str e)
                         (logger ERROR (''Failed to save profile: '' @ str e) s1)
                   | None \<Rightarrow>
                       message_box Information ''Success''
                         (''Profile '' @ quoted name @ '' saved successfully!'')
                         (logger INFO (''Profile '' @ quoted name @ '' saved successfully!'')
                            (s1\<lparr>profiles := AList.update name (Json profile_data) (profiles s1)\<rparr>))))"

text \<open>The loop over the items of the tree.\<close>

definition apply_profile ::
  "(string \<rightharpoonup> bool) \<Rightarrow> string list \<Rightarrow> (string \<times> mod_info) list \<Rightarrow> (string \<times> mod_info) list"
where
  "apply_profile profile_data items ms =
     fold (\<lambda>name ms.
             case profile_data name of
               None \<Rightarrow> ms
             | Some should_be_enabled \<Rightarrow>
                 if name \<in> fst ` set ms then set_enabled name should_be_enabled ms else ms)
       items ms"

text \<open>
  \<open>path_of name\<close> is the text of the path of the profile file, as the error message for a
  missing file shows it. The \<open>IndexError\<close> of the second loop of \<^verbatim>\<open>_update_conflicts\<close> is
  raised inside the \<^verbatim>\<open>try\<close> and caught by its \<^verbatim>\<open>except\<close>, after the registry has been written.
\<close>

definition load_profile ::
  "set_order \<Rightarrow> (exn \<Rightarrow> string) \<Rightarrow> (string \<Rightarrow> string) \<Rightarrow> string \<times> bool \<Rightarrow> manager \<Rightarrow> manager"
where
  "load_profile it str path_of dialog s =
     (if profiles s = [] then
        message_box Information ''No Profiles'' ''No saved profiles found.''
          (logger INFO ''No profiles found'' s)
      else
        case dialog of (name, ok) \<Rightarrow>
          if \<not> ok \<or> name = [] then s
          else
            let s1 = logger INFO (''Loading profile: '' @ name) s
            in (case map_of (profiles s1) name of
                 None \<Rightarrow>
                   message_box Critical ''Error'' (''Profile file not found: '' @ path_of name)
                     (logger ERROR (''Profile file not found: '' @ path_of name) s1)
               | Some Unparsable \<Rightarrow>
                   message_box Critical ''Error''
                     (''Failed to load profile: '' @ str (JSONDecodeError (path_of name)))
                     (logger ERROR
                        (''Failed to load profile: '' @ str (JSONDecodeError (path_of name))) s1)
               | Some (Json profile_data) \<Rightarrow>
                   let s2 = s1\<lparr>mods := update_conflicts it
                                 (apply_profile profile_data (tree_items s1) (mods s1))\<rparr>
                   in (case show_conflicts s2 of
                         Some e \<Rightarrow>
                           message_box Critical ''Error'' (''Failed to load profile: '' @ str e)
                             (logger ERROR (''Failed to load profile: '' @ str e) s2)
                       | None \<Rightarrow>
                           message_box Information ''Success''
                             (''Profile '' @ quoted name @ '' loaded successfully!'')
                             (logger INFO (''Profile '' @ quoted name @ '' loaded successfully!'') s2))))"


subsection \<open>Observations and example registries\<close>

text \<open>The conflicts recorded for the mod registered under a folder name.\<close>

definition conflicts_in :: "(string \<times> mod_info) list \<Rightarrow> string \<Rightarrow> (string \<rightharpoonup> string)" where
  "conflicts_in ms name = (case map_of ms name of None \<Rightarrow> Map.empty | Some m \<Rightarrow> conflicts m)"

text \<open>An iteration order: every set is visited in ascending order of its paths.\<close>

definition sorted_order :: set_order where
  "sorted_order = (\<lambda>mod_name other_name S. sorted_list_of_fset S)"

definition example_mod :: "string \<Rightarrow> string \<Rightarrow> string fset \<Rightarrow> bool \<Rightarrow> mod_info" where
  "example_mod name title files on =
     \<lparr>folder_name = name, path = name,
      metadata = \<lparr>display_name = title, mod_id = name, version = ''1'', authors = [],
                  affects_saves = False, dependencies = [], affected_files = files\<rparr>,
      enabled = on, conflicts = Map.empty\<rparr>"

text \<open>The scenario of the specification: two enabled mods that share one file.\<close>

definition scenario :: "(string \<times> mod_info) list" where
  "scenario =
     [(''mod_a'', example_mod ''mod_a'' ''Mod A'' {|''a.xml'', ''shared.xml''|} True),
      (''mod_b'', example_mod ''mod_b'' ''Mod B'' {|''shared.xml''|} True)]"

text \<open>Three enabled mods that carry one display name.\<close>

definition same_title :: "(string \<times> mod_info) list" where
  "same_title =
     [(''pack_1'', example_mod ''pack_1'' ''Pack'' {|''units.xml''|} True),
      (''pack_2'', example_mod ''pack_2'' ''Pack'' {|''maps.xml''|} True),
      (''pack_3'', example_mod ''pack_3'' ''Pack'' {|''units.xml'', ''maps.xml''|} True)]"

text \<open>Two enabled mods that share two files.\<close>

definition two_shared :: "(string \<times> mod_info) list" where
  "two_shared =
     [(''mod_a'', example_mod ''mod_a'' ''Mod A'' {|''a.xml'', ''shared.xml''|} True),
      (''mod_b'', example_mod ''mod_b'' ''Mod B'' {|''a.xml'', ''shared.xml''|} True)]"

text \<open>No disabled mod of a registry has a conflict entry.\<close>

definition disabled_clean :: "(string \<times> mod_info) list \<Rightarrow> bool" where
  "disabled_clean ms \<longleftrightarrow> (\<forall>(name, m) \<in> set ms. \<not> enabled m \<longrightarrow> conflicts m = Map.empty)"

text \<open>
  A manager that has loaded a registry: one tree item per mod, showing the mod's display
  name, empty directories, no profile, nothing logged.
\<close>

definition example_manager :: "(string \<times> mod_info) list \<Rightarrow> manager" where
  "example_manager ms =
     \<lparr>mods = ms, tree_items = map fst ms,
      tree_texts = map (\<lambda>(name, m). display_name (metadata m)) ms,
      storage = Some [], game_mods = Some [], profiles = [], events = []\<rparr>"

text \<open>
  A rendering of exceptions, a lower-casing of the letters \<open>A\<close> to \<open>Z\<close>, a text for profile
  paths, a file system on which every profile can be written, and tree items that show
  the display name: values for the parameters, used where a theorem is applied to an
  example. The theorems hold for every value of the parameters.
\<close>

fun example_str :: "exn \<Rightarrow> string" where
  "example_str (FileNotFoundError p) = ''No such file or directory: '' @ p"
| "example_str (NotADirectoryError p) = ''Not a directory: '' @ p"
| "example_str (FileExistsError p) = ''File exists: '' @ p"
| "example_str (PermissionError p) = ''Permission denied: '' @ p"
| "example_str (ShutilError ps) = ''Cannot copy: '' @ concat ps"
| "example_str (JSONDecodeError p) = ''Expecting value: '' @ p"
| "example_str IndexError = ''list index out of range''"

definition ascii_lower :: "string \<Rightarrow> string" where
  "ascii_lower name =
     map (\<lambda>c. case map_of (zip ''ABCDEFGHIJKLMNOPQRSTUVWXYZ'' ''abcdefghijklmnopqrstuvwxyz'') c of
                Some l \<Rightarrow> l
              | None \<Rightarrow> c) name"

definition example_path :: "string \<Rightarrow> string" where
  "example_path name = ''Profiles/'' @ name @ ''.json''"

definition always_opens :: "string \<Rightarrow> exn option" where
  "always_opens name = None"

definition example_label :: "mod_info \<Rightarrow> string" where
  "example_label m = display_name (metadata m)"

text \<open>The scenario loaded, with one saved profile that switches \<open>mod_a\<close> off.\<close>

definition scenario_manager :: manager where
  "scenario_manager =
     (example_manager scenario)\<lparr>profiles := [(''solo'', Json [''mod_a'' \<mapsto> False])]\<rparr>"



text \<open>
  A manager with no mods and one old profile; and the state after the scenario has been
  saved as profile \<open>both\<close>, \<open>mod_a\<close> has gone and a new \<open>mod_c\<close> has come, both mods off.
\<close>

definition empty_manager :: manager where
  "empty_manager = (example_manager [])\<lparr>profiles := [(''old'', Json [''mod_a'' \<mapsto> True])]\<rparr>"


text \<open>
  An example manifest parser: the manifest is the file \<open>mod.modinfo\<close>, its content is the
  display name, and the mod affects the files of its folder. A storage directory with
  three mod folders, one of them without manifest, and a stray file.
\<close>

definition example_parse :: parser where
  "example_parse name t =
     (case map_of t ''mod.modinfo'' of
        Some (File title) \<Rightarrow>
          Inr \<lparr>display_name = title, mod_id = name, version = ''1'', authors = [],
               affects_saves = False, dependencies = [], affected_files = fset_of_list (map fst t)\<rparr>
      | _ \<Rightarrow> Inl ''no manifest'')"

definition example_storage :: directory where
  "example_storage =
     [(''broken'', DirNode [(''readme.txt'', File ''nothing here'')]),
      (''Beta'', DirNode [(''mod.modinfo'', File ''Mod B''), (''shared.xml'', File ''b'')]),
      (''notes.txt'', FileNode (File ''to do'')),
      (''alpha'', DirNode [(''mod.modinfo'', File ''Mod A''), (''a.xml'', File ''a'')])]"

definition fresh_manager :: manager where
  "fresh_manager =
     \<lparr>mods = [], tree_items = [], tree_texts = [], storage = Some example_storage,
      game_mods = Some [], profiles = [], events = []\<rparr>"

text \<open>
  What \<open>copytree\<close> does with a source, told apart from how \<open>copy_mods\<close> goes on: whether
  the copy is complete, what it leaves at the destination in either case, and what it
  raises when it is not complete and the destination was free.
\<close>

definition copies_cleanly :: "node option \<Rightarrow> bool" where
  "copies_cleanly src =
     (case src of Some (DirNode t) \<Rightarrow> Locked \<notin> snd ` set t | _ \<Rightarrow> False)"

definition copy_of :: "node option \<Rightarrow> string \<Rightarrow> directory" where
  "copy_of src name =
     (case src of
        Some (DirNode t) \<Rightarrow> [(name, DirNode (filter (\<lambda>(p, f). f \<noteq> Locked) t))]
      | _ \<Rightarrow> [])"

definition copy_failure :: "node option \<Rightarrow> string \<Rightarrow> exn" where
  "copy_failure src name =
     (case src of
        None \<Rightarrow> FileNotFoundError name
      | Some (FileNode f) \<Rightarrow> NotADirectoryError name
      | Some (DirNode t) \<Rightarrow> ShutilError (map fst (filter (\<lambda>(p, f). f = Locked) t)))"

text \<open>
  Three enabled mods and a disabled one; the second has a file that cannot be read. The
  game directory holds a folder and a file from an earlier deployment.
\<close>

definition deploy_example :: manager where
  "deploy_example =
     \<lparr>mods =
        [(''mod_a'', example_mod ''mod_a'' ''Mod A'' {|''a.xml''|} True),
         (''mod_b'', example_mod ''mod_b'' ''Mod B'' {|''b.xml''|} True),
         (''mod_c'', example_mod ''mod_c'' ''Mod C'' {|''c.xml''|} True),
         (''mod_d'', example_mod ''mod_d'' ''Mod D'' {|''d.xml''|} False)],
      tree_items = [''mod_a'', ''mod_b'', ''mod_c'', ''mod_d''],
      tree_texts = [''Mod A'', ''Mod B'', ''Mod C'', ''Mod D''],
      storage = Some
        [(''mod_a'', DirNode [(''a.xml'', File ''a'')]),
         (''mod_b'', DirNode [(''b.xml'', File ''b''), (''big.bin'', Locked)]),
         (''mod_c'', DirNode [(''c.xml'', File ''c'')]),
         (''mod_d'', DirNode [(''d.xml'', File ''d'')])],
      game_mods = Some [(''old_mod'', DirNode [(''old.xml'', File ''o'')]), (''notes.txt'', FileNode (File ''n''))],
      profiles = [], events = []\<rparr>"

text \<open>The same with \<open>mod_b\<close> switched off, so that every enabled mod can be copied.\<close>

definition deploy_example_ok :: manager where
  "deploy_example_ok = deploy_example\<lparr>mods := set_enabled ''mod_b'' False (mods deploy_example)\<rparr>"

text \<open>The same with \<open>mod_a\<close> switched off, so that the first copy is the one that fails.\<close>

definition deploy_example_first :: manager where
  "deploy_example_first = deploy_example\<lparr>mods := set_enabled ''mod_a'' False (mods deploy_example)\<rparr>"


section \<open>Properties\<close>

subsection \<open>The loops of \<^verbatim>\<open>_update_conflicts\<close>\<close>

lemma foldl_upd_last:
  "foldl (\<lambda>cs file. cs(k \<mapsto> file)) cs xs = (if xs = [] then cs else cs(k \<mapsto> last xs))"
  by (induction xs arbitrary: cs) auto

lemma order_Nil_iff: "iteration_order it \<Longrightarrow> it a b S = [] \<longleftrightarrow> S = {||}"
proof -
  assume "iteration_order it"
  then have eq: "fset_of_list (it a b S) = S"
    by (simp add: iteration_order_def)
  show ?thesis
  proof (cases "it a b S")
    case Nil
    with eq show ?thesis by simp
  next
    case (Cons x xs)
    with eq show ?thesis by auto
  qed
qed

lemma order_last_in: "iteration_order it \<Longrightarrow> S \<noteq> {||} \<Longrightarrow> last (it a b S) |\<in>| S"
  by (metis fset_of_list_elem iteration_order_def last_in_set order_Nil_iff)

lemma note_conflicts_eq:
  "iteration_order it \<Longrightarrow>
   note_conflicts it n m cs (kn, om) =
     (if kn \<noteq> n \<and> common_files m om \<noteq> {||}
      then cs(display_name (metadata om) \<mapsto> last (it n kn (common_files m om))) else cs)"
  by (simp add: note_conflicts_def foldl_upd_last order_Nil_iff)

lemma dom_foldl_note:
  "iteration_order it \<Longrightarrow>
   dom (foldl (note_conflicts it n m) cs others) =
     dom cs \<union> {display_name (metadata om) | kn om. (kn, om) \<in> set others \<and> kn \<noteq> n \<and> common_files m om \<noteq> {||}}"
proof (induction others arbitrary: cs)
  case Nil
  then show ?case by simp
next
  case (Cons x xs)
  obtain kn om where x: "x = (kn, om)" by (cases x)
  show ?case
    unfolding x using Cons.prems
    by (auto simp: Cons.IH note_conflicts_eq)
qed

lemma foldl_note_same:
  "iteration_order it \<Longrightarrow>
   \<forall>(kn, om) \<in> set others. \<not> (kn \<noteq> n \<and> display_name (metadata om) = d \<and> common_files m om \<noteq> {||}) \<Longrightarrow>
   foldl (note_conflicts it n m) cs others d = cs d"
proof (induction others arbitrary: cs)
  case Nil
  then show ?case by simp
next
  case (Cons x xs)
  obtain kn om where x: "x = (kn, om)" by (cases x)
  from Cons.prems show ?case
    unfolding x by (auto simp: Cons.IH note_conflicts_eq)
qed

lemma foldl_note_lookup:
  "iteration_order it \<Longrightarrow> (kn, om) \<in> set others \<Longrightarrow> kn \<noteq> n \<Longrightarrow> common_files m om \<noteq> {||} \<Longrightarrow>
   \<forall>(kn', om') \<in> set others.
      kn' \<noteq> n \<and> display_name (metadata om') = display_name (metadata om) \<and> common_files m om' \<noteq> {||}
        \<longrightarrow> kn' = kn \<and> om' = om \<Longrightarrow>
   foldl (note_conflicts it n m) cs others (display_name (metadata om)) =
     Some (last (it n kn (common_files m om)))"
proof (induction others arbitrary: cs)
  case Nil
  then show ?case by simp
next
  case (Cons x xs)
  obtain xn xo where x: "x = (xn, xo)" by (cases x)
  show ?case
  proof (cases "(kn, om) \<in> set xs")
    case True
    with Cons.prems show ?thesis by (auto simp: Cons.IH)
  next
    case False
    with Cons.prems have here: "x = (kn, om)" by auto
    have rest: "\<forall>(kn', om') \<in> set xs. \<not> (kn' \<noteq> n \<and> display_name (metadata om') = display_name (metadata om) \<and> common_files m om' \<noteq> {||})"
      using Cons.prems(5) False by auto
    show ?thesis
      using Cons.prems(1,3,4) by (simp add: here foldl_note_same[OF Cons.prems(1) rest] note_conflicts_eq)
  qed
qed

lemma map_of_update_conflicts:
  "map_of (update_conflicts it ms) k = map_option (\<lambda>m. m\<lparr>conflicts := conflicts_of it ms k m\<rparr>) (map_of ms k)"
proof -
  have "map_of (map (\<lambda>(mod_name, m). (mod_name, m\<lparr>conflicts := f mod_name m\<rparr>)) xs) k =
        map_option (\<lambda>m. m\<lparr>conflicts := f k m\<rparr>) (map_of xs k)" for f xs
    by (induction xs) auto
  then show ?thesis by (simp add: update_conflicts_def)
qed

lemma conflicts_in_update:
  "map_of ms k = Some m \<Longrightarrow> conflicts_in (update_conflicts it ms) k = conflicts_of it ms k m"
  by (simp add: conflicts_in_def map_of_update_conflicts)

lemma registry_entry: "registry_ok ms \<Longrightarrow> map_of ms k = Some m \<Longrightarrow> (k, m') \<in> set ms \<Longrightarrow> m' = m"
  by (simp add: registry_ok_def)

lemma sorted_order_ok: "iteration_order sorted_order"
proof -
  have "distinct (sorted_list_of_fset S)" for S :: "string fset"
    by (simp add: sorted_list_of_fset.rep_eq)
  then show ?thesis
    by (simp add: iteration_order_def sorted_order_def)
qed

lemma conflicts_of_dom:
  assumes "iteration_order it" "enabled m"
  shows "d \<in> dom (conflicts_of it ms n m) \<longleftrightarrow>
         (\<exists>k other. (k, other) \<in> set ms \<and> enabled other \<and> k \<noteq> n \<and> display_name (metadata other) = d
            \<and> common_files m other \<noteq> {||})"
  using assms by (auto simp: conflicts_of_def dom_foldl_note enabled_mods_def)


subsection \<open>Claim C1: conflict entries and shared files\<close>

text \<open>
  Claim C1, as amended. After \<open>update_conflicts\<close>, for two enabled mods registered under
  different folder names, when no third enabled mod carries the display name of either:
  the two mods share an affected file if and only if each has a conflict entry under the
  display name of the other. The entries are keyed by display name, so the condition on
  the display names cannot be dropped.
\<close>

theorem conflict_entries_iff_overlap:
  assumes "iteration_order it" and "registry_ok ms"
    and "map_of ms a = Some A" and "map_of ms b = Some B" and "a \<noteq> b"
    and "enabled A" and "enabled B"
    and "\<forall>(c, C) \<in> set ms.
           enabled C \<and> (display_name (metadata C) = display_name (metadata A)
                         \<or> display_name (metadata C) = display_name (metadata B))
           \<longrightarrow> c = a \<or> c = b"
  shows "common_files A B \<noteq> {||} \<longleftrightarrow>
           display_name (metadata B) \<in> dom (conflicts_in (update_conflicts it ms) a)
           \<and> display_name (metadata A) \<in> dom (conflicts_in (update_conflicts it ms) b)"
proof
  have inA: "(a, A) \<in> set ms" and inB: "(b, B) \<in> set ms"
    using assms(3,4) by (auto dest: map_of_SomeD)
  have sym: "common_files B A = common_files A B"
    by (auto simp: common_files_def)
  {
    assume "common_files A B \<noteq> {||}"
    then have ab: "common_files A B \<noteq> {||}" and ba: "common_files B A \<noteq> {||}"
      by (simp_all add: sym)
    have "display_name (metadata B) \<in> dom (conflicts_of it ms a A)"
      unfolding conflicts_of_dom[OF assms(1,6)] using inB assms(5,7) ab by blast
    moreover have "display_name (metadata A) \<in> dom (conflicts_of it ms b B)"
      unfolding conflicts_of_dom[OF assms(1,7)] using inA assms(5,6) ba by blast
    ultimately show "display_name (metadata B) \<in> dom (conflicts_in (update_conflicts it ms) a)
           \<and> display_name (metadata A) \<in> dom (conflicts_in (update_conflicts it ms) b)"
      by (simp add: conflicts_in_update[OF assms(3)] conflicts_in_update[OF assms(4)])
  next
    assume "display_name (metadata B) \<in> dom (conflicts_in (update_conflicts it ms) a)
           \<and> display_name (metadata A) \<in> dom (conflicts_in (update_conflicts it ms) b)"
    then have "display_name (metadata B) \<in> dom (conflicts_of it ms a A)"
      by (simp add: conflicts_in_update[OF assms(3)])
    then obtain k other where o: "(k, other) \<in> set ms" "enabled other" "k \<noteq> a"
        "display_name (metadata other) = display_name (metadata B)" "common_files A other \<noteq> {||}"
      using assms(1,6) by (auto simp: conflicts_of_dom)
    with assms(8) have "k = b" by auto
    with o(1) assms(2,4) have "other = B" by (auto dest: registry_entry)
    with o(5) show "common_files A B \<noteq> {||}" by simp
  }
qed

text \<open>The theorem at the scenario of the specification.\<close>

theorem conflict_entries_iff_overlap_witness:
  "common_files (example_mod ''mod_a'' ''Mod A'' {|''a.xml'', ''shared.xml''|} True)
     (example_mod ''mod_b'' ''Mod B'' {|''shared.xml''|} True) \<noteq> {||}
   \<and> ''Mod B'' \<in> dom (conflicts_in (update_conflicts sorted_order scenario) ''mod_a'')
   \<and> ''Mod A'' \<in> dom (conflicts_in (update_conflicts sorted_order scenario) ''mod_b'')"
  using conflict_entries_iff_overlap [of sorted_order scenario "''mod_a''"
      "example_mod ''mod_a'' ''Mod A'' {|''a.xml'', ''shared.xml''|} True" "''mod_b''"
      "example_mod ''mod_b'' ''Mod B'' {|''shared.xml''|} True"]
  by (simp add: sorted_order_ok registry_ok_def scenario_def example_mod_def common_files_def)

text \<open>
  Claim C1 as stated fails when display names repeat: \<open>pack_1\<close> and \<open>pack_2\<close> share no
  file, yet each has an entry under the display name of the other, written for \<open>pack_3\<close>.
\<close>

theorem shared_display_name_counterexample:
  "common_files (example_mod ''pack_1'' ''Pack'' {|''units.xml''|} True)
     (example_mod ''pack_2'' ''Pack'' {|''maps.xml''|} True) = {||}
   \<and> conflicts_in (update_conflicts sorted_order same_title) ''pack_1'' ''Pack'' = Some ''units.xml''
   \<and> conflicts_in (update_conflicts sorted_order same_title) ''pack_2'' ''Pack'' = Some ''maps.xml''"
  by (simp add: conflicts_in_def update_conflicts_def same_title_def example_mod_def conflicts_of_def
      enabled_mods_def note_conflicts_def common_files_def sorted_order_def sorted_list_of_fset.rep_eq)


subsection \<open>Claim C2: the representative file\<close>

lemma entry_is_last_visited:
  assumes "iteration_order it" and "registry_ok ms"
    and "map_of ms a = Some A" and "map_of ms b = Some B" and "a \<noteq> b"
    and "enabled A" and "enabled B"
    and "common_files A B \<noteq> {||}"
    and "\<forall>(c, C) \<in> set ms.
           enabled C \<and> display_name (metadata C) = display_name (metadata B) \<longrightarrow> c = a \<or> c = b"
  shows "conflicts_in (update_conflicts it ms) a (display_name (metadata B)) =
           Some (last (it a b (common_files A B)))
         \<and> last (it a b (common_files A B)) |\<in>| common_files A B"
proof -
  have inB: "(b, B) \<in> set (enabled_mods ms)"
    using assms(4,7) by (auto simp: enabled_mods_def dest: map_of_SomeD)
  have only: "\<forall>(k', m') \<in> set (enabled_mods ms).
      k' \<noteq> a \<and> display_name (metadata m') = display_name (metadata B) \<and> common_files A m' \<noteq> {||}
        \<longrightarrow> k' = b \<and> m' = B"
  proof (clarify)
    fix k' m'
    assume in': "(k', m') \<in> set (enabled_mods ms)" and "k' \<noteq> a"
      and "display_name (metadata m') = display_name (metadata B)"
    then have "k' = b" using assms(9) by (auto simp: enabled_mods_def)
    moreover from in' have "(k', m') \<in> set ms" by (simp add: enabled_mods_def)
    ultimately show "k' = b \<and> m' = B"
      using assms(2,4) by (auto dest: registry_entry)
  qed
  have "foldl (note_conflicts it a A) Map.empty (enabled_mods ms) (display_name (metadata B)) =
          Some (last (it a b (common_files A B)))"
    using assms(5) by (intro foldl_note_lookup[OF assms(1) inB _ assms(8) only]) simp
  then show ?thesis
    using assms(1,6,8) by (simp add: conflicts_in_update[OF assms(3)] conflicts_of_def order_last_in)
qed

text \<open>
  Claim C2, as amended. For two enabled mods registered under different folder names that
  share a file, when no third enabled mod carries the display name of either, the file
  recorded in each mod's entry for the other is the path that the iteration over the
  intersection visits last. It is a path of the intersection; which one depends on the
  iteration order.
\<close>

theorem representative_is_last_visited:
  assumes "iteration_order it" and "registry_ok ms"
    and "map_of ms a = Some A" and "map_of ms b = Some B" and "a \<noteq> b"
    and "enabled A" and "enabled B"
    and "common_files A B \<noteq> {||}"
    and "\<forall>(c, C) \<in> set ms.
           enabled C \<and> (display_name (metadata C) = display_name (metadata A)
                         \<or> display_name (metadata C) = display_name (metadata B))
           \<longrightarrow> c = a \<or> c = b"
  shows "conflicts_in (update_conflicts it ms) a (display_name (metadata B)) =
           Some (last (it a b (common_files A B)))
         \<and> last (it a b (common_files A B)) |\<in>| common_files A B
         \<and> conflicts_in (update_conflicts it ms) b (display_name (metadata A)) =
           Some (last (it b a (common_files B A)))
         \<and> last (it b a (common_files B A)) |\<in>| common_files B A"
proof -
  have ba: "common_files B A \<noteq> {||}"
    using assms(8) by (auto simp: common_files_def)
  have forB: "\<forall>(c, C) \<in> set ms.
      enabled C \<and> display_name (metadata C) = display_name (metadata B) \<longrightarrow> c = a \<or> c = b"
    using assms(9) by auto
  have forA: "\<forall>(c, C) \<in> set ms.
      enabled C \<and> display_name (metadata C) = display_name (metadata A) \<longrightarrow> c = b \<or> c = a"
    using assms(9) by auto
  from entry_is_last_visited[OF assms(1,2,3,4,5,6,7,8) forB]
       entry_is_last_visited[OF assms(1,2,4,3) assms(5)[symmetric] assms(7,6) ba forA]
  show ?thesis by simp
qed

text \<open>The theorem at the scenario of the specification.\<close>

theorem representative_is_last_visited_witness:
  "conflicts_in (update_conflicts sorted_order scenario) ''mod_a'' ''Mod B'' = Some ''shared.xml''
   \<and> conflicts_in (update_conflicts sorted_order scenario) ''mod_b'' ''Mod A'' = Some ''shared.xml''"
proof -
  have "conflicts_in (update_conflicts sorted_order scenario) ''mod_a'' ''Mod B'' =
          Some (last (sorted_order ''mod_a'' ''mod_b'' {|''shared.xml''|}))
        \<and> conflicts_in (update_conflicts sorted_order scenario) ''mod_b'' ''Mod A'' =
          Some (last (sorted_order ''mod_b'' ''mod_a'' {|''shared.xml''|}))"
    using representative_is_last_visited [of sorted_order scenario "''mod_a''"
        "example_mod ''mod_a'' ''Mod A'' {|''a.xml'', ''shared.xml''|} True" "''mod_b''"
        "example_mod ''mod_b'' ''Mod B'' {|''shared.xml''|} True"]
    by (simp add: sorted_order_ok registry_ok_def scenario_def example_mod_def common_files_def)
  then show ?thesis
    by (simp add: sorted_order_def sorted_list_of_fset.rep_eq)
qed

text \<open>
  Claim C2 as stated fails: under an iteration order that visits paths in ascending order,
  the file recorded for two mods that share \<open>a.xml\<close> and \<open>shared.xml\<close> is \<open>shared.xml\<close>,
  and \<open>a.xml\<close> is the smaller path.
\<close>

theorem representative_not_smallest_counterexample:
  "conflicts_in (update_conflicts sorted_order two_shared) ''mod_a'' ''Mod B'' = Some ''shared.xml''
   \<and> conflicts_in (update_conflicts sorted_order two_shared) ''mod_b'' ''Mod A'' = Some ''shared.xml''
   \<and> ''a.xml'' |\<in>| common_files (example_mod ''mod_a'' ''Mod A'' {|''a.xml'', ''shared.xml''|} True)
          (example_mod ''mod_b'' ''Mod B'' {|''a.xml'', ''shared.xml''|} True)
   \<and> ''a.xml'' < ''shared.xml''"
  by (simp add: conflicts_in_def update_conflicts_def two_shared_def example_mod_def conflicts_of_def
      enabled_mods_def note_conflicts_def common_files_def sorted_order_def sorted_list_of_fset.rep_eq
      insert_commute)


subsection \<open>Claim C3: disabled mods carry no conflicts\<close>

lemma disabled_clean_update: "disabled_clean (update_conflicts it ms)"
  by (auto simp: disabled_clean_def update_conflicts_def conflicts_of_def)

lemma map_entry_distinct:
  "distinct (map fst xs) \<Longrightarrow>
   AList.map_entry k f xs = map (\<lambda>(k', v). (k', if k' = k then f v else v)) xs"
proof (induction xs)
  case Nil
  then show ?case by simp
next
  case (Cons p ps)
  show ?case
  proof (cases "fst p = k")
    case True
    with Cons.prems have "k \<notin> fst ` set ps" by auto
    then have "\<forall>q \<in> set ps. fst q \<noteq> k" by (metis image_eqI)
    then have "map (\<lambda>(k', v). (k', if k' = k then f v else v)) ps = ps"
      by (intro map_idI) auto
    with True show ?thesis by (cases p) simp
  next
    case False
    with Cons show ?thesis by (cases p) simp
  qed
qed

lemma toggle_recomputes:
  "user_data i = Some name \<Longrightarrow> name \<noteq> [] \<Longrightarrow> map_of (mods s) name = Some m \<Longrightarrow>
   mods (on_mod_toggle it (Some i) 0 s) = update_conflicts it (set_enabled name (checked i) (mods s))"
  by (simp add: on_mod_toggle_def)

lemma load_recomputes:
  "pname \<noteq> [] \<Longrightarrow> map_of (profiles s) pname = Some (Json pd) \<Longrightarrow>
   mods (load_profile it str path_of (pname, True) s) =
     update_conflicts it (apply_profile pd (tree_items s) (mods s))"
  by (auto simp: load_profile_def logger_def message_box_def Let_def split: option.splits)

lemma enable_all_recomputes:
  "mods (enable_all_mods it s) = update_conflicts it (set_all True (tree_items s) (mods s))"
  by (simp add: enable_all_mods_def logger_def Let_def split: option.splits)

lemma disable_all_recomputes:
  "mods (disable_all_mods it s) = update_conflicts it (set_all False (tree_items s) (mods s))"
  by (simp add: disable_all_mods_def logger_def Let_def split: option.splits)

lemma switched_off_has_none:
  assumes "map_of ms a = Some A"
  shows "conflicts_in (update_conflicts it (set_enabled a False ms)) a = Map.empty"
proof -
  have "map_of (set_enabled a False ms) a = Some (A\<lparr>enabled := False\<rparr>)"
    using assms by (simp add: set_enabled_def map_of_map_entry)
  then show ?thesis
    by (simp add: conflicts_in_update conflicts_of_def)
qed

lemma partner_has_none:
  assumes "iteration_order it" and "registry_ok ms"
    and "map_of ms b = Some B" and "a \<noteq> b"
    and "\<forall>(c, C) \<in> set ms. enabled C \<and> c \<noteq> a \<and> c \<noteq> b \<longrightarrow> common_files B C = {||}"
  shows "conflicts_in (update_conflicts it (set_enabled a False ms)) b = Map.empty"
proof -
  let ?ms = "set_enabled a False ms"
  have shape: "?ms = map (\<lambda>(k', v). (k', if k' = a then v\<lparr>enabled := False\<rparr> else v)) ms"
    using assms(2) by (simp add: set_enabled_def registry_ok_def map_entry_distinct)
  have still: "map_of ?ms b = Some B"
    using assms(3,4) by (simp add: set_enabled_def map_of_map_entry)
  have quiet: "\<forall>(k', m') \<in> set (enabled_mods ?ms).
      \<not> (k' \<noteq> b \<and> display_name (metadata m') = d \<and> common_files B m' \<noteq> {||})" for d
    unfolding shape enabled_mods_def using assms(5) by (auto split: if_splits)
  have "foldl (note_conflicts it b B) Map.empty (enabled_mods ?ms) = Map.empty"
    by (rule ext) (simp add: foldl_note_same[OF assms(1) quiet])
  then show ?thesis
    by (simp add: conflicts_in_update[OF still] conflicts_of_def)
qed

text \<open>
  Claim C3. After \<open>update_conflicts\<close>, every disabled mod has an empty conflicts map; this
  is the state after \<open>enable_all_mods\<close>, after \<open>disable_all_mods\<close>, after a toggle of a
  registered mod and after a profile file has been read and applied. For two registered mods \<open>a\<close> and
  \<open>b\<close> that share no file with any third enabled mod, unchecking either of them leaves the
  conflicts maps of both empty.
\<close>

theorem disabled_mods_have_no_conflicts:
  "disabled_clean (update_conflicts it ms)
   \<and> disabled_clean (mods (enable_all_mods it s))
   \<and> disabled_clean (mods (disable_all_mods it s))
   \<and> (user_data i = Some name \<and> name \<noteq> [] \<and> map_of (mods s) name = Some m
        \<longrightarrow> disabled_clean (mods (on_mod_toggle it (Some i) 0 s)))
   \<and> (pname \<noteq> [] \<and> map_of (profiles s) pname = Some (Json pd)
        \<longrightarrow> disabled_clean (mods (load_profile it str path_of (pname, True) s)))
   \<and> (iteration_order it \<and> registry_ok (mods s)
        \<and> map_of (mods s) a = Some A \<and> map_of (mods s) b = Some B
        \<and> a \<noteq> b \<and> a \<noteq> [] \<and> b \<noteq> []
        \<and> (\<forall>(c, C) \<in> set (mods s).
              enabled C \<and> c \<noteq> a \<and> c \<noteq> b \<longrightarrow> common_files A C = {||} \<and> common_files B C = {||})
        \<longrightarrow> conflicts_in (mods (on_mod_toggle it (Some \<lparr>user_data = Some a, checked = False\<rparr>) 0 s)) a
              = Map.empty
          \<and> conflicts_in (mods (on_mod_toggle it (Some \<lparr>user_data = Some a, checked = False\<rparr>) 0 s)) b
              = Map.empty
          \<and> conflicts_in (mods (on_mod_toggle it (Some \<lparr>user_data = Some b, checked = False\<rparr>) 0 s)) a
              = Map.empty
          \<and> conflicts_in (mods (on_mod_toggle it (Some \<lparr>user_data = Some b, checked = False\<rparr>) 0 s)) b
              = Map.empty)"
proof (intro conjI impI)
  show "disabled_clean (update_conflicts it ms)"
    by (rule disabled_clean_update)
  show "disabled_clean (mods (enable_all_mods it s))"
    by (simp add: enable_all_recomputes disabled_clean_update)
  show "disabled_clean (mods (disable_all_mods it s))"
    by (simp add: disable_all_recomputes disabled_clean_update)
  show "disabled_clean (mods (on_mod_toggle it (Some i) 0 s))"
    if "user_data i = Some name \<and> name \<noteq> [] \<and> map_of (mods s) name = Some m"
    using that by (simp add: toggle_recomputes disabled_clean_update)
  show "disabled_clean (mods (load_profile it str path_of (pname, True) s))"
    if "pname \<noteq> [] \<and> map_of (profiles s) pname = Some (Json pd)"
    using that by (simp add: load_recomputes disabled_clean_update)
next
  assume h: "iteration_order it \<and> registry_ok (mods s)
        \<and> map_of (mods s) a = Some A \<and> map_of (mods s) b = Some B
        \<and> a \<noteq> b \<and> a \<noteq> [] \<and> b \<noteq> []
        \<and> (\<forall>(c, C) \<in> set (mods s).
              enabled C \<and> c \<noteq> a \<and> c \<noteq> b \<longrightarrow> common_files A C = {||} \<and> common_files B C = {||})"
  then have it: "iteration_order it" and ok: "registry_ok (mods s)"
    and A: "map_of (mods s) a = Some A" and B: "map_of (mods s) b = Some B"
    and ne: "a \<noteq> b" "b \<noteq> a" "a \<noteq> []" "b \<noteq> []"
    by auto
  from h have forB: "\<forall>(c, C) \<in> set (mods s). enabled C \<and> c \<noteq> a \<and> c \<noteq> b \<longrightarrow> common_files B C = {||}"
    and forA: "\<forall>(c, C) \<in> set (mods s). enabled C \<and> c \<noteq> b \<and> c \<noteq> a \<longrightarrow> common_files A C = {||}"
    by auto
  have offa: "mods (on_mod_toggle it (Some \<lparr>user_data = Some a, checked = False\<rparr>) 0 s)
      = update_conflicts it (set_enabled a False (mods s))"
    using A ne by (simp add: toggle_recomputes)
  have offb: "mods (on_mod_toggle it (Some \<lparr>user_data = Some b, checked = False\<rparr>) 0 s)
      = update_conflicts it (set_enabled b False (mods s))"
    using B ne by (simp add: toggle_recomputes)
  show "conflicts_in (mods (on_mod_toggle it (Some \<lparr>user_data = Some a, checked = False\<rparr>) 0 s)) a
      = Map.empty"
    unfolding offa by (rule switched_off_has_none[OF A])
  show "conflicts_in (mods (on_mod_toggle it (Some \<lparr>user_data = Some a, checked = False\<rparr>) 0 s)) b
      = Map.empty"
    unfolding offa by (rule partner_has_none[OF it ok B ne(1) forB])
  show "conflicts_in (mods (on_mod_toggle it (Some \<lparr>user_data = Some b, checked = False\<rparr>) 0 s)) a
      = Map.empty"
    unfolding offb by (rule partner_has_none[OF it ok A ne(2) forA])
  show "conflicts_in (mods (on_mod_toggle it (Some \<lparr>user_data = Some b, checked = False\<rparr>) 0 s)) b
      = Map.empty"
    unfolding offb by (rule switched_off_has_none[OF B])
qed

text \<open>The theorem at the scenario of the specification.\<close>

theorem disabled_mods_have_no_conflicts_witness:
  "disabled_clean (update_conflicts sorted_order scenario)
   \<and> disabled_clean (mods (enable_all_mods sorted_order scenario_manager))
   \<and> disabled_clean (mods (disable_all_mods sorted_order scenario_manager))
   \<and> disabled_clean (mods (on_mod_toggle sorted_order
        (Some \<lparr>user_data = Some ''mod_a'', checked = False\<rparr>) 0 scenario_manager))
   \<and> disabled_clean (mods (load_profile sorted_order example_str example_path (''solo'', True)
        scenario_manager))
   \<and> conflicts_in (mods (on_mod_toggle sorted_order
        (Some \<lparr>user_data = Some ''mod_a'', checked = False\<rparr>) 0 scenario_manager)) ''mod_a'' = Map.empty
   \<and> conflicts_in (mods (on_mod_toggle sorted_order
        (Some \<lparr>user_data = Some ''mod_a'', checked = False\<rparr>) 0 scenario_manager)) ''mod_b'' = Map.empty
   \<and> conflicts_in (mods (on_mod_toggle sorted_order
        (Some \<lparr>user_data = Some ''mod_b'', checked = False\<rparr>) 0 scenario_manager)) ''mod_a'' = Map.empty
   \<and> conflicts_in (mods (on_mod_toggle sorted_order
        (Some \<lparr>user_data = Some ''mod_b'', checked = False\<rparr>) 0 scenario_manager)) ''mod_b'' = Map.empty"
proof -
  have hyps: "map_of (mods scenario_manager) ''mod_a'' =
        Some (example_mod ''mod_a'' ''Mod A'' {|''a.xml'', ''shared.xml''|} True)"
    "map_of (mods scenario_manager) ''mod_b'' = Some (example_mod ''mod_b'' ''Mod B'' {|''shared.xml''|} True)"
    "map_of (profiles scenario_manager) ''solo'' = Some (Json [''mod_a'' \<mapsto> False])"
    "registry_ok (mods scenario_manager)"
    "\<forall>(c, C) \<in> set (mods scenario_manager).
        enabled C \<and> c \<noteq> ''mod_a'' \<and> c \<noteq> ''mod_b'' \<longrightarrow>
          common_files (example_mod ''mod_a'' ''Mod A'' {|''a.xml'', ''shared.xml''|} True) C = {||}
          \<and> common_files (example_mod ''mod_b'' ''Mod B'' {|''shared.xml''|} True) C = {||}"
    by (simp_all add: scenario_manager_def example_manager_def scenario_def registry_ok_def)
  show ?thesis
    using disabled_mods_have_no_conflicts [where it = sorted_order and ms = scenario
        and s = scenario_manager and i = "\<lparr>user_data = Some ''mod_a'', checked = False\<rparr>"
        and name = "''mod_a''" and m = "example_mod ''mod_a'' ''Mod A'' {|''a.xml'', ''shared.xml''|} True"
        and pname = "''solo''" and pd = "[''mod_a'' \<mapsto> False]"
        and str = example_str and path_of = example_path
        and a = "''mod_a''" and A = "example_mod ''mod_a'' ''Mod A'' {|''a.xml'', ''shared.xml''|} True"
        and b = "''mod_b''" and B = "example_mod ''mod_b'' ''Mod B'' {|''shared.xml''|} True"]
    by (simp add: hyps sorted_order_ok)
qed


subsection \<open>Claim C8: a toggle for a folder name that is not registered\<close>

text \<open>
  Claim C8, as amended. When the folder name carried by the toggled item is not a key of
  the registry, \<open>on_mod_toggle\<close> returns with the manager unchanged: no enabled flag and
  no conflicts map is written, nothing is logged and no message is shown. The source
  returns early there; it raises no error.
\<close>

theorem toggle_of_unknown_mod_changes_nothing:
  assumes "user_data i = Some name" and "map_of (mods s) name = None"
  shows "on_mod_toggle it (Some i) column s = s"
  using assms by (simp add: on_mod_toggle_def)

text \<open>The theorem for an item that names a folder the scenario does not have.\<close>

theorem toggle_of_unknown_mod_changes_nothing_witness:
  "on_mod_toggle sorted_order (Some \<lparr>user_data = Some ''mod_c'', checked = False\<rparr>) 0 scenario_manager
     = scenario_manager"
  using toggle_of_unknown_mod_changes_nothing [of "\<lparr>user_data = Some ''mod_c'', checked = False\<rparr>"
      "''mod_c''" scenario_manager sorted_order 0]
  by (simp add: scenario_manager_def example_manager_def scenario_def)

text \<open>
  Claim C8 as stated fails: \<open>ghost\<close> is not a key of the registry, and the toggle ends
  normally, with the registry as it was and neither a log entry nor a message box, so no
  error has been raised or reported.
\<close>

theorem toggle_of_unknown_mod_counterexample:
  "map_of (mods (example_manager scenario)) ''ghost'' = None
   \<and> mods (on_mod_toggle sorted_order (Some \<lparr>user_data = Some ''ghost'', checked = True\<rparr>) 0
        (example_manager scenario)) = scenario
   \<and> events (on_mod_toggle sorted_order (Some \<lparr>user_data = Some ''ghost'', checked = True\<rparr>) 0
        (example_manager scenario)) = []"
  by (simp add: on_mod_toggle_def example_manager_def scenario_def)


subsection \<open>The loop of \<^verbatim>\<open>refresh_mod_list\<close>\<close>

lemma load_mod_mods:
  "mods (load_mod parse initially label (name, t) s) =
     (case parse name t of
        Inl err \<Rightarrow> mods s
      | Inr md \<Rightarrow>
          AList.update name
            \<lparr>folder_name = name, path = name, metadata = md, enabled = initially,
             conflicts = Map.empty\<rparr> (mods s))"
  by (simp add: load_mod_def ModInfo_def logger_def split: sum.splits)

lemma load_mod_tree_items:
  "tree_items (load_mod parse initially label (name, t) s) =
     (case parse name t of Inl err \<Rightarrow> tree_items s | Inr md \<Rightarrow> tree_items s @ [name])"
  by (simp add: load_mod_def ModInfo_def logger_def split: sum.splits)

lemma load_mod_tree_texts:
  "tree_texts (load_mod parse initially label (name, t) s) =
     (case parse name t of
        Inl err \<Rightarrow> tree_texts s
      | Inr md \<Rightarrow>
          tree_texts s @
            [label \<lparr>folder_name = name, path = name, metadata = md, enabled = initially,
                    conflicts = Map.empty\<rparr>])"
  by (simp add: load_mod_def ModInfo_def logger_def split: sum.splits)

lemma load_mod_events:
  "events (load_mod parse initially label (name, t) s) =
     events s @
       [case parse name t of
          Inl err \<Rightarrow> Log ERROR (''Error loading mod '' @ name @ '': '' @ err)
        | Inr md \<Rightarrow> Log INFO (''Loaded mod: '' @ name)]"
  by (simp add: load_mod_def ModInfo_def logger_def split: sum.splits)

lemma load_all_storage [simp]:
  "storage (fold (load_mod parse initially label) ds s) = storage s"
  by (induction ds arbitrary: s) (auto simp: load_mod_def logger_def split: sum.splits)

lemma load_all_same_mods:
  "mods s = mods s' \<Longrightarrow>
   mods (fold (load_mod parse initially label) ds s) = mods (fold (load_mod parse initially label) ds s')"
proof (induction ds arbitrary: s s')
  case Nil
  then show ?case by simp
next
  case (Cons d ds)
  obtain name t where d: "d = (name, t)" by (cases d)
  have "mods (load_mod parse initially label d s) = mods (load_mod parse initially label d s')"
    using Cons.prems by (cases "parse name t") (simp_all add: d load_mod_mods)
  from Cons.IH[OF this] show ?case by simp
qed

lemma load_all_same_tree_items:
  "tree_items s = tree_items s' \<Longrightarrow>
   tree_items (fold (load_mod parse initially label) ds s) =
     tree_items (fold (load_mod parse initially label) ds s')"
proof (induction ds arbitrary: s s')
  case Nil
  then show ?case by simp
next
  case (Cons d ds)
  obtain name t where d: "d = (name, t)" by (cases d)
  have "tree_items (load_mod parse initially label d s) = tree_items (load_mod parse initially label d s')"
    using Cons.prems by (cases "parse name t") (simp_all add: d load_mod_tree_items)
  from Cons.IH[OF this] show ?case by simp
qed

lemma load_all_same_tree_texts:
  "tree_texts s = tree_texts s' \<Longrightarrow>
   tree_texts (fold (load_mod parse initially label) ds s) =
     tree_texts (fold (load_mod parse initially label) ds s')"
proof (induction ds arbitrary: s s')
  case Nil
  then show ?case by simp
next
  case (Cons d ds)
  obtain name t where d: "d = (name, t)" by (cases d)
  have "tree_texts (load_mod parse initially label d s) = tree_texts (load_mod parse initially label d s')"
    using Cons.prems by (cases "parse name t") (simp_all add: d load_mod_tree_texts)
  from Cons.IH[OF this] show ?case by simp
qed

lemma load_all_keys:
  "fst ` set (mods (fold (load_mod parse initially label) ds s)) =
     fst ` set (mods s) \<union> {name. \<exists>t md. (name, t) \<in> set ds \<and> parse name t = Inr md}"
proof (induction ds arbitrary: s)
  case Nil
  then show ?case by simp
next
  case (Cons d ds)
  obtain name t where d: "d = (name, t)" by (cases d)
  show ?case
  proof (cases "parse name t")
    case (Inl err)
    then have "mods (load_mod parse initially label (name, t) s) = mods s"
      by (simp add: load_mod_mods)
    with Inl show ?thesis
      unfolding d by (auto simp: Cons.IH)
  next
    case (Inr md)
    then have "fst ` set (mods (load_mod parse initially label (name, t) s)) = insert name (fst ` set (mods s))"
      by (simp add: load_mod_mods dom_update)
    with Inr show ?thesis
      unfolding d by (auto simp: Cons.IH)
  qed
qed

lemma load_all_tree_items:
  "set (tree_items (fold (load_mod parse initially label) ds s)) =
     set (tree_items s) \<union> {name. \<exists>t md. (name, t) \<in> set ds \<and> parse name t = Inr md}"
proof (induction ds arbitrary: s)
  case Nil
  then show ?case by simp
next
  case (Cons d ds)
  obtain name t where d: "d = (name, t)" by (cases d)
  show ?case
  proof (cases "parse name t")
    case (Inl err)
    then have "tree_items (load_mod parse initially label (name, t) s) = tree_items s"
      by (simp add: load_mod_tree_items)
    with Inl show ?thesis
      unfolding d by (auto simp: Cons.IH)
  next
    case (Inr md)
    then have "set (tree_items (load_mod parse initially label (name, t) s)) = insert name (set (tree_items s))"
      by (simp add: load_mod_tree_items)
    with Inr show ?thesis
      unfolding d by (auto simp: Cons.IH)
  qed
qed

lemma load_all_untouched:
  "name \<notin> fst ` set ds \<Longrightarrow>
   map_of (mods (fold (load_mod parse initially label) ds s)) name = map_of (mods s) name"
proof (induction ds arbitrary: s)
  case Nil
  then show ?case by simp
next
  case (Cons d ds)
  obtain name' t where d: "d = (name', t)" by (cases d)
  from Cons.prems have "name' \<noteq> name" and "name \<notin> fst ` set ds"
    by (auto simp: d)
  then show ?case
    unfolding d by (cases "parse name' t") (simp_all add: Cons.IH load_mod_mods update_conv')
qed

lemma load_all_record:
  "distinct (map fst ds) \<Longrightarrow> (name, t) \<in> set ds \<Longrightarrow> parse name t = Inr md \<Longrightarrow>
   map_of (mods (fold (load_mod parse initially label) ds s)) name =
     Some \<lparr>folder_name = name, path = name, metadata = md, enabled = initially,
           conflicts = Map.empty\<rparr>"
proof (induction ds arbitrary: s)
  case Nil
  then show ?case by simp
next
  case (Cons d ds)
  show ?case
  proof (cases "d = (name, t)")
    case True
    with Cons.prems have "name \<notin> fst ` set ds" by simp
    then show ?thesis
      using Cons.prems(3) by (simp add: True load_all_untouched load_mod_mods update_conv')
  next
    case False
    with Cons.prems show ?thesis by (simp add: Cons.IH)
  qed
qed

lemma load_all_keeps_events:
  "e \<in> set (events s) \<Longrightarrow> e \<in> set (events (fold (load_mod parse initially label) ds s))"
proof (induction ds arbitrary: s)
  case Nil
  then show ?case by simp
next
  case (Cons d ds)
  obtain name t where d: "d = (name, t)" by (cases d)
  from Cons.prems show ?case
    by (simp add: d Cons.IH load_mod_events)
qed

lemma load_all_logs_failure:
  "(name, t) \<in> set ds \<Longrightarrow> parse name t = Inl err \<Longrightarrow>
   Log ERROR (''Error loading mod '' @ name @ '': '' @ err)
     \<in> set (events (fold (load_mod parse initially label) ds s))"
proof (induction ds arbitrary: s)
  case Nil
  then show ?case by simp
next
  case (Cons d ds)
  show ?case
  proof (cases "d = (name, t)")
    case True
    with Cons.prems(2) show ?thesis
      by (simp add: load_all_keeps_events load_mod_events)
  next
    case False
    with Cons.prems have "(name, t) \<in> set ds" by auto
    from Cons.IH[OF this Cons.prems(2)] show ?thesis by simp
  qed
qed

lemma set_mod_dirs: "set (mod_dirs es) = {(name, t). (name, DirNode t) \<in> set es}"
  by (induction es rule: mod_dirs.induct) auto

lemma keys_mod_dirs: "fst ` set (mod_dirs es) \<subseteq> fst ` set es"
  by (force simp: set_mod_dirs)

lemma distinct_mod_dirs: "distinct (map fst es) \<Longrightarrow> distinct (map fst (mod_dirs es))"
proof (induction es rule: mod_dirs.induct)
  case 1
  then show ?case by simp
next
  case (2 name t es)
  then show ?case using keys_mod_dirs[of es] by auto
next
  case (3 name f es)
  then show ?case by simp
qed

lemma distinct_sorted_dirs:
  "distinct (map fst ds) \<Longrightarrow> distinct (map fst (sort_key f ds))"
  by (simp add: distinct_map)

lemma refresh_storage [simp]: "storage (refresh_mod_list lower parse initially label s) = storage s"
  by (simp add: refresh_mod_list_def logger_def Let_def split: option.splits)

text \<open>After a refresh the tree has an item for every registered mod, and no other.\<close>

lemma refresh_tree_items:
  "set (tree_items (refresh_mod_list lower parse initially label s)) =
     fst ` set (mods (refresh_mod_list lower parse initially label s))"
proof (cases "storage s")
  case None
  then show ?thesis
    by (simp add: refresh_mod_list_def logger_def)
next
  case (Some es)
  show ?thesis
  proof (cases "mod_dirs es = []")
    case True
    with Some show ?thesis
      by (simp add: refresh_mod_list_def logger_def)
  next
    case False
    have "storage ((logger INFO ''Refreshing mod list'' s)\<lparr>tree_items := [], tree_texts := [], mods := []\<rparr>) = Some es"
      using Some by (simp add: logger_def)
    with False show ?thesis
      by (simp add: refresh_mod_list_def Let_def load_all_tree_items load_all_keys)
  qed
qed

text \<open>The registry that a refresh builds has pairwise different keys.\<close>

lemma load_all_registry_ok:
  "registry_ok (mods s) \<Longrightarrow> registry_ok (mods (fold (load_mod parse initially label) ds s))"
proof (induction ds arbitrary: s)
  case Nil
  then show ?case by simp
next
  case (Cons d ds)
  obtain name t where d: "d = (name, t)" by (cases d)
  have "registry_ok (mods (load_mod parse initially label d s))"
    using Cons.prems
    by (cases "parse name t") (simp_all add: d load_mod_mods registry_ok_def distinct_update)
  from Cons.IH[OF this] show ?case by simp
qed

lemma refresh_registry_ok: "registry_ok (mods (refresh_mod_list lower parse initially label s))"
proof (cases "storage s")
  case None
  then show ?thesis
    by (simp add: refresh_mod_list_def logger_def registry_ok_def)
next
  case (Some es)
  have "registry_ok (mods ((logger INFO ''Refreshing mod list'' s)\<lparr>tree_items := [], tree_texts := [], mods := []\<rparr>))"
    by (simp add: registry_ok_def)
  from load_all_registry_ok[OF this] Some show ?thesis
    by (simp add: refresh_mod_list_def Let_def logger_def registry_ok_def)
qed

text \<open>
  When the item built for a mod shows the mod's display name, the tree after a refresh
  has an item under the display name of every registered mod, and the second loop of
  \<^verbatim>\<open>_update_conflicts\<close> finds them all.
\<close>

lemma update_subset_insert: "set (AList.update k v al) \<subseteq> insert (k, v) (set al)"
  by (induction al) auto

lemma load_all_labels:
  "\<forall>(k, m) \<in> set (mods s). label m \<in> set (tree_texts s) \<Longrightarrow>
   \<forall>(k, m) \<in> set (mods (fold (load_mod parse initially label) ds s)).
      label m \<in> set (tree_texts (fold (load_mod parse initially label) ds s))"
proof (induction ds arbitrary: s)
  case Nil
  then show ?case by simp
next
  case (Cons d ds)
  obtain name t where d: "d = (name, t)" by (cases d)
  have "\<forall>(k, m) \<in> set (mods (load_mod parse initially label d s)).
      label m \<in> set (tree_texts (load_mod parse initially label d s))"
  proof (cases "parse name t")
    case (Inl err)
    with Cons.prems show ?thesis
      by (simp add: d load_mod_mods load_mod_tree_texts)
  next
    case (Inr md)
    let ?mi = "\<lparr>folder_name = name, path = name, metadata = md, enabled = initially,
                conflicts = Map.empty\<rparr>"
    have "set (AList.update name ?mi (mods s)) \<subseteq> insert (name, ?mi) (set (mods s))"
      by (rule update_subset_insert)
    with Cons.prems Inr show ?thesis
      by (auto simp: d load_mod_mods load_mod_tree_texts)
  qed
  from Cons.IH[OF this] show ?case by simp
qed

lemma refresh_shows_every_mod:
  "show_conflicts (refresh_mod_list lower parse initially (\<lambda>m. display_name (metadata m)) s) = None"
proof -
  let ?label = "\<lambda>m :: mod_info. display_name (metadata m)"
  let ?s1 = "(logger INFO ''Refreshing mod list'' s)\<lparr>tree_items := [], tree_texts := [], mods := []\<rparr>"
  have start: "\<forall>(k, m) \<in> set (mods ?s1). ?label m \<in> set (tree_texts ?s1)"
    by simp
  have "\<forall>(k, m) \<in> set (mods (refresh_mod_list lower parse initially ?label s)).
      ?label m \<in> set (tree_texts (refresh_mod_list lower parse initially ?label s))"
  proof (cases "storage s")
    case None
    then show ?thesis
      by (simp add: refresh_mod_list_def logger_def)
  next
    case (Some es)
    show ?thesis
    proof (cases "mod_dirs es = []")
      case True
      with Some show ?thesis
        by (simp add: refresh_mod_list_def logger_def)
    next
      case False
      have "refresh_mod_list lower parse initially ?label s =
          fold (load_mod parse initially ?label) (sort_key (\<lambda>(name, t). lower name) (mod_dirs es)) ?s1"
        using Some False by (simp add: refresh_mod_list_def Let_def logger_def)
      with load_all_labels[OF start] show ?thesis
        by simp
    qed
  qed
  then show ?thesis
    by (simp add: show_conflicts_def list_all_iff)
qed


subsection \<open>Claim C4: refreshing twice\<close>

lemma refresh_reads_storage_only:
  assumes "storage a = storage b"
  shows "mods (refresh_mod_list lower parse initially label a) = mods (refresh_mod_list lower parse initially label b)"
    and "tree_items (refresh_mod_list lower parse initially label a) = tree_items (refresh_mod_list lower parse initially label b)"
    and "tree_texts (refresh_mod_list lower parse initially label a) = tree_texts (refresh_mod_list lower parse initially label b)"
proof -
  let ?a = "(logger INFO ''Refreshing mod list'' a)\<lparr>tree_items := [], tree_texts := [], mods := []\<rparr>"
  let ?b = "(logger INFO ''Refreshing mod list'' b)\<lparr>tree_items := [], tree_texts := [], mods := []\<rparr>"
  have same: "storage ?a = storage ?b" "mods ?a = mods ?b" "tree_items ?a = tree_items ?b"
    "tree_texts ?a = tree_texts ?b"
    using assms by (simp_all add: logger_def)
  show "mods (refresh_mod_list lower parse initially label a) = mods (refresh_mod_list lower parse initially label b)"
  proof (cases "storage ?b")
    case None
    with same(1) show ?thesis
      by (simp add: refresh_mod_list_def logger_def)
  next
    case (Some es)
    with same(1) load_all_same_mods[OF same(2)] show ?thesis
      by (simp add: refresh_mod_list_def Let_def) (simp add: logger_def)
  qed
  show "tree_items (refresh_mod_list lower parse initially label a) = tree_items (refresh_mod_list lower parse initially label b)"
  proof (cases "storage ?b")
    case None
    with same(1) show ?thesis
      by (simp add: refresh_mod_list_def logger_def)
  next
    case (Some es)
    with same(1) load_all_same_tree_items[OF same(3)] show ?thesis
      by (simp add: refresh_mod_list_def Let_def) (simp add: logger_def)
  qed
  show "tree_texts (refresh_mod_list lower parse initially label a) = tree_texts (refresh_mod_list lower parse initially label b)"
  proof (cases "storage ?b")
    case None
    with same(1) show ?thesis
      by (simp add: refresh_mod_list_def logger_def)
  next
    case (Some es)
    with same(1) load_all_same_tree_texts[OF same(4)] show ?thesis
      by (simp add: refresh_mod_list_def Let_def) (simp add: logger_def)
  qed
qed

text \<open>
  Claim C4. \<open>refresh_mod_list\<close> leaves the storage directory alone, and what it registers
  depends on the storage directory only; so a second refresh right after the first gives
  the same registry, with the same keys in the same order and the same record under each,
  and the same tree items. This holds for every sort key, parser, initial flag and item
  text.
\<close>

theorem refresh_twice_same_registry:
  "mods (refresh_mod_list lower parse initially label (refresh_mod_list lower parse initially label s)) =
     mods (refresh_mod_list lower parse initially label s)
   \<and> tree_items (refresh_mod_list lower parse initially label (refresh_mod_list lower parse initially label s)) =
     tree_items (refresh_mod_list lower parse initially label s)
   \<and> tree_texts (refresh_mod_list lower parse initially label (refresh_mod_list lower parse initially label s)) =
     tree_texts (refresh_mod_list lower parse initially label s)
   \<and> storage (refresh_mod_list lower parse initially label s) = storage s"
  using refresh_reads_storage_only[where a = "refresh_mod_list lower parse initially label s" and b = s
      and lower = lower and parse = parse and initially = initially and label = label]
  by simp

text \<open>The theorem for the example storage: both refreshes register \<open>alpha\<close> and \<open>Beta\<close>.\<close>

theorem refresh_twice_same_registry_witness:
  "map fst (mods (refresh_mod_list ascii_lower example_parse True example_label
      (refresh_mod_list ascii_lower example_parse True example_label fresh_manager))) = [''alpha'', ''Beta'']"
proof -
  have "map fst (mods (refresh_mod_list ascii_lower example_parse True example_label fresh_manager)) = [''alpha'', ''Beta'']"
    by (simp add: refresh_mod_list_def fresh_manager_def example_storage_def example_parse_def
        load_mod_def ModInfo_def logger_def ascii_lower_def example_label_def Let_def)
  with refresh_twice_same_registry [where lower = ascii_lower and parse = example_parse
      and initially = True and label = example_label and s = fresh_manager]
  show ?thesis by simp
qed


subsection \<open>Claim C5: a mod folder that cannot be parsed\<close>

lemma refresh_is_load_all:
  assumes "storage s = Some es" and "mod_dirs es \<noteq> []"
  shows "refresh_mod_list lower parse initially label s =
           fold (load_mod parse initially label) (sort_key (\<lambda>(name, t). lower name) (mod_dirs es))
             ((logger INFO ''Refreshing mod list'' s)\<lparr>tree_items := [], tree_texts := [], mods := []\<rparr>)"
  using assms by (simp add: refresh_mod_list_def Let_def logger_def)

text \<open>
  Claim C5. Let the storage directory hold entries of pairwise different names, among
  them a directory for which the parser fails. After \<open>refresh_mod_list\<close> that directory's
  name is not a key of the registry, the failure is in the log, the registry has a key
  for exactly the directories that could be parsed, and each of those has its complete
  record.
\<close>

theorem unparsable_mod_is_left_out:
  assumes "storage s = Some es" and "distinct (map fst es)"
    and "(name, DirNode t) \<in> set es" and "parse name t = Inl err"
  shows "name \<notin> fst ` set (mods (refresh_mod_list lower parse initially label s))
         \<and> Log ERROR (''Error loading mod '' @ name @ '': '' @ err)
             \<in> set (events (refresh_mod_list lower parse initially label s))
         \<and> fst ` set (mods (refresh_mod_list lower parse initially label s)) =
             {name'. \<exists>t' md. (name', DirNode t') \<in> set es \<and> parse name' t' = Inr md}
         \<and> (\<forall>name' t' md.
               (name', DirNode t') \<in> set es \<and> parse name' t' = Inr md \<longrightarrow>
               map_of (mods (refresh_mod_list lower parse initially label s)) name' =
                 Some \<lparr>folder_name = name', path = name', metadata = md, enabled = initially,
                       conflicts = Map.empty\<rparr>)"
proof -
  let ?ds = "sort_key (\<lambda>(name, t). lower name) (mod_dirs es)"
  let ?s1 = "(logger INFO ''Refreshing mod list'' s)\<lparr>tree_items := [], tree_texts := [], mods := []\<rparr>"
  have dirs: "set ?ds = {(name, t). (name, DirNode t) \<in> set es}"
    by (simp add: set_mod_dirs)
  have some: "mod_dirs es \<noteq> []"
    using assms(3) set_mod_dirs[of es] by auto
  have run: "refresh_mod_list lower parse initially label s = fold (load_mod parse initially label) ?ds ?s1"
    by (rule refresh_is_load_all[OF assms(1) some])
  have names: "distinct (map fst ?ds)"
    by (intro distinct_sorted_dirs distinct_mod_dirs assms(2))
  have here: "(name, t) \<in> set ?ds"
    using assms(3) dirs by simp
  have keys: "fst ` set (mods (refresh_mod_list lower parse initially label s)) =
      {name'. \<exists>t' md. (name', DirNode t') \<in> set es \<and> parse name' t' = Inr md}"
    unfolding run load_all_keys dirs by simp
  have unique: "t' = t" if "(name, DirNode t') \<in> set es" for t'
  proof -
    from names have "inj_on fst (set ?ds)" by (simp add: distinct_map)
    moreover from that dirs have "(name, t') \<in> set ?ds" by simp
    ultimately have "fst (name, t') = fst (name, t) \<longrightarrow> (name, t') = (name, t)"
      using here by (blast dest: inj_onD)
    then show ?thesis by simp
  qed
  have absent: "name \<notin> fst ` set (mods (refresh_mod_list lower parse initially label s))"
    unfolding keys using unique assms(4) by auto
  have logged: "Log ERROR (''Error loading mod '' @ name @ '': '' @ err)
      \<in> set (events (refresh_mod_list lower parse initially label s))"
    unfolding run by (rule load_all_logs_failure[where parse = parse, OF here assms(4)])
  have complete: "map_of (mods (refresh_mod_list lower parse initially label s)) name' =
      Some \<lparr>folder_name = name', path = name', metadata = md, enabled = initially,
            conflicts = Map.empty\<rparr>"
    if "(name', DirNode t') \<in> set es \<and> parse name' t' = Inr md" for name' t' md
  proof -
    from that dirs have "(name', t') \<in> set ?ds" and "parse name' t' = Inr md" by simp_all
    then show ?thesis
      unfolding run by (rule load_all_record[where parse = parse, OF names])
  qed
  from absent logged keys complete show ?thesis by blast
qed

text \<open>
  The theorem for the example storage, where \<open>broken\<close> has no manifest: it is not
  registered, the error is logged, and \<open>alpha\<close> and \<open>Beta\<close> are registered.
\<close>

theorem unparsable_mod_is_left_out_witness:
  "''broken'' \<notin> fst ` set (mods (refresh_mod_list ascii_lower example_parse True example_label fresh_manager))
   \<and> Log ERROR ''Error loading mod broken: no manifest''
       \<in> set (events (refresh_mod_list ascii_lower example_parse True example_label fresh_manager))
   \<and> map_of (mods (refresh_mod_list ascii_lower example_parse True example_label fresh_manager)) ''alpha'' =
       Some \<lparr>folder_name = ''alpha'', path = ''alpha'',
             metadata = \<lparr>display_name = ''Mod A'', mod_id = ''alpha'', version = ''1'', authors = [],
                         affects_saves = False, dependencies = [],
                         affected_files = {|''mod.modinfo'', ''a.xml''|}\<rparr>,
             enabled = True, conflicts = Map.empty\<rparr>"
proof -
  have hyps: "storage fresh_manager = Some example_storage"
    "distinct (map fst example_storage)"
    "(''broken'', DirNode [(''readme.txt'', File ''nothing here'')]) \<in> set example_storage"
    "example_parse ''broken'' [(''readme.txt'', File ''nothing here'')] = Inl ''no manifest''"
    by (simp_all add: fresh_manager_def example_storage_def example_parse_def)
  have good: "(''alpha'', DirNode [(''mod.modinfo'', File ''Mod A''), (''a.xml'', File ''a'')])
        \<in> set example_storage
      \<and> example_parse ''alpha'' [(''mod.modinfo'', File ''Mod A''), (''a.xml'', File ''a'')] =
        Inr \<lparr>display_name = ''Mod A'', mod_id = ''alpha'', version = ''1'', authors = [],
             affects_saves = False, dependencies = [],
             affected_files = {|''mod.modinfo'', ''a.xml''|}\<rparr>"
    by (simp add: example_storage_def example_parse_def)
  note left_out = unparsable_mod_is_left_out [where s = fresh_manager and es = example_storage
      and name = "''broken''" and t = "[(''readme.txt'', File ''nothing here'')]"
      and parse = example_parse and err = "''no manifest''" and initially = True
      and lower = ascii_lower and label = example_label, OF hyps]
  from left_out good show ?thesis by auto
qed


subsection \<open>Claim C10: saving a profile of an empty registry\<close>

text \<open>
  Claim C10. With no mods loaded, \<open>save_profile\<close> leaves the profile directory as it is,
  whatever the dialog returns and whether or not a file could be opened; when the dialog
  was accepted with a name, it logs the attempt and a warning and shows a warning box, and
  does nothing else.
\<close>

theorem save_with_no_mods_writes_nothing:
  assumes "mods s = []"
  shows "profiles (save_profile str opens (name, ok) s) = profiles s
         \<and> (ok \<and> name \<noteq> [] \<longrightarrow>
              save_profile str opens (name, ok) s =
                s\<lparr>events := events s @
                     [Log INFO (''Saving profile: '' @ name),
                      Log WARNING ''No mods to save in profile'',
                      MessageBox Warning ''Warning'' ''No mods available to save in profile.'']\<rparr>)"
  using assms by (simp add: save_profile_def logger_def message_box_def)

text \<open>The theorem for a manager without mods that already has a profile.\<close>

theorem save_with_no_mods_writes_nothing_witness:
  "profiles (save_profile example_str always_opens (''new'', True) empty_manager) = profiles empty_manager
   \<and> events (save_profile example_str always_opens (''new'', True) empty_manager) =
       [Log INFO ''Saving profile: new'',
        Log WARNING ''No mods to save in profile'',
        MessageBox Warning ''Warning'' ''No mods available to save in profile.'']"
  using save_with_no_mods_writes_nothing [where s = empty_manager and name = "''new''"
      and ok = True and str = example_str and opens = always_opens]
  by (simp add: empty_manager_def example_manager_def)


subsection \<open>Claim C9: saving and loading a profile\<close>










subsection \<open>The phases of \<^verbatim>\<open>deploy_mods\<close>\<close>

lemma clear_directory_done: "clear_directory d = (None, d') \<Longrightarrow> d' = []"
  by (induction d rule: clear_directory.induct) (auto split: option.splits if_splits)

lemma no_locked_filter:
  "filter (\<lambda>(p, f). f = Locked) t = [] \<longleftrightarrow> Locked \<notin> snd ` set t"
  by (induction t) auto

lemma all_unlocked_filter:
  "Locked \<notin> snd ` set t \<Longrightarrow> filter (\<lambda>(p, f). f \<noteq> Locked) t = t"
  by (induction t) auto

lemma copytree_clean:
  "copies_cleanly src \<Longrightarrow> name \<notin> fst ` set dir \<Longrightarrow>
   copytree src name dir = (None, dir @ copy_of src name)"
  by (auto simp: copies_cleanly_def copy_of_def copytree_def Let_def no_locked_filter
      split: option.splits node.splits)

lemma copytree_partial:
  "\<not> copies_cleanly src \<Longrightarrow> name \<notin> fst ` set dir \<Longrightarrow>
   copytree src name dir = (Some (copy_failure src name), dir @ copy_of src name)"
  by (auto simp: copies_cleanly_def copy_of_def copy_failure_def copytree_def Let_def no_locked_filter
      split: option.splits node.splits)

lemma copytree_success:
  "copytree src name dir = (None, d') \<Longrightarrow> copies_cleanly src \<and> name \<notin> fst ` set dir"
  by (auto simp: copies_cleanly_def copytree_def Let_def no_locked_filter
      split: option.splits node.splits if_splits)

lemma copy_of_clean:
  "copies_cleanly src \<Longrightarrow> map (\<lambda>(n, nd). (n, Some nd)) (copy_of src name) = [(name, src)]"
  by (auto simp: copies_cleanly_def copy_of_def all_unlocked_filter split: option.splits node.splits)

lemma copy_of_keys: "fst ` set (copy_of src name) \<subseteq> {name}"
  by (auto simp: copy_of_def split: option.splits node.splits)

lemma stored_logger [simp]: "stored (logger l msg s) p = stored s p"
  by (simp add: stored_def logger_def)

lemma stored_game_mods [simp]: "stored (s\<lparr>game_mods := g\<rparr>) p = stored s p"
  by (simp add: stored_def)

lemma stored_events [simp]: "stored (s\<lparr>events := e\<rparr>) p = stored s p"
  by (simp add: stored_def)

lemma game_dir_logger [simp]: "game_dir (logger l msg s) = game_dir s"
  by (simp add: game_dir_def logger_def)

lemma game_dir_events [simp]: "game_dir (s\<lparr>events := e\<rparr>) = game_dir s"
  by (simp add: game_dir_def)

lemma game_dir_set [simp]: "game_dir (s\<lparr>game_mods := Some d\<rparr>) = d"
  by (simp add: game_dir_def)

lemma disjoint_grow: "A \<inter> K = {} \<Longrightarrow> n \<notin> A \<Longrightarrow> D \<subseteq> insert n K \<Longrightarrow> A \<inter> D = {}"
  by blast

text \<open>
  As long as the copies are complete and the names are new, the loop goes on; it leaves
  the copies in the game directory and one log line per mod.
\<close>

lemma copy_mods_prefix:
  assumes "\<forall>(n, m) \<in> set pre. copies_cleanly (stored s (path m))"
    and "distinct (map fst pre)"
    and "fst ` set pre \<inter> fst ` set (game_dir s) = {}"
    and "game_mods s = Some (game_dir s)"
  shows "copy_mods (pre @ rest) s =
           copy_mods rest
             (s\<lparr>game_mods := Some (game_dir s @ concat (map (\<lambda>(n, m). copy_of (stored s (path m)) n) pre)),
                events := events s @ map (\<lambda>(n, m). Log INFO (''Deploying mod: '' @ n)) pre\<rparr>)"
  using assms
proof (induction pre arbitrary: s)
  case Nil
  then have "s\<lparr>game_mods := Some (game_dir s)\<rparr> = s"
    by (cases s) simp
  then show ?case by simp
next
  case (Cons p pre)
  obtain n m where p: "p = (n, m)" by (cases p)
  let ?s1 = "logger INFO (''Deploying mod: '' @ n) s"
  let ?d = "game_dir s @ copy_of (stored s (path m)) n"
  let ?s2 = "?s1\<lparr>game_mods := Some ?d\<rparr>"
  have clean: "copies_cleanly (stored s (path m))" and new: "n \<notin> fst ` set (game_dir s)"
    using Cons.prems(1,3) by (auto simp: p)
  have step: "copy_mods ((p # pre) @ rest) s = copy_mods (pre @ rest) ?s2"
    by (simp add: p Let_def copytree_clean[OF clean new])
  have keys: "fst ` set ?d \<subseteq> insert n (fst ` set (game_dir s))"
    using copy_of_keys[of "stored s (path m)" n] by auto
  have "copy_mods (pre @ rest) ?s2 =
      copy_mods rest
        (?s2\<lparr>game_mods := Some (game_dir ?s2 @ concat (map (\<lambda>(n, m). copy_of (stored ?s2 (path m)) n) pre)),
            events := events ?s2 @ map (\<lambda>(n, m). Log INFO (''Deploying mod: '' @ n)) pre\<rparr>)"
  proof (rule Cons.IH)
    show "\<forall>(n, m) \<in> set pre. copies_cleanly (stored ?s2 (path m))"
      using Cons.prems(1) by auto
    show "distinct (map fst pre)"
      using Cons.prems(2) by simp
    have other: "n \<notin> fst ` set pre"
      using Cons.prems(2) by (simp add: p)
    have apart: "fst ` set pre \<inter> fst ` set (game_dir s) = {}"
      using Cons.prems(3) by (auto simp: p)
    show "fst ` set pre \<inter> fst ` set (game_dir ?s2) = {}"
      by (simp only: game_dir_set) (rule disjoint_grow[OF apart other keys])
    show "game_mods ?s2 = Some (game_dir ?s2)"
      by simp
  qed
  then show ?case
    unfolding step by (simp add: p logger_def)
qed

lemma copy_mods_success:
  "copy_mods ens s = (None, s') \<Longrightarrow>
   (\<forall>(n, m) \<in> set ens. copies_cleanly (stored s (path m)))
   \<and> distinct (map fst ens) \<and> fst ` set ens \<inter> fst ` set (game_dir s) = {}"
proof (induction ens arbitrary: s)
  case Nil
  then show ?case by simp
next
  case (Cons p ens)
  obtain n m where p: "p = (n, m)" by (cases p)
  let ?s1 = "logger INFO (''Deploying mod: '' @ n) s"
  obtain r d where c: "copytree (stored s (path m)) n (game_dir s) = (r, d)"
    by (cases "copytree (stored s (path m)) n (game_dir s)")
  from Cons.prems have r: "r = None" and rest: "copy_mods ens (?s1\<lparr>game_mods := Some d\<rparr>) = (None, s')"
    by (auto simp: p c Let_def split: option.splits)
  from c r have clean: "copies_cleanly (stored s (path m))" and new: "n \<notin> fst ` set (game_dir s)"
    by (auto dest: copytree_success)
  from c r copytree_clean[OF clean new] have d: "d = game_dir s @ copy_of (stored s (path m)) n"
    by simp
  have here: "n \<in> fst ` set d"
    using copy_of_clean[OF clean, of n] unfolding d by (cases "copy_of (stored s (path m)) n") auto
  have before: "fst ` set (game_dir s) \<subseteq> fst ` set d"
    unfolding d by auto
  from Cons.IH[OF rest]
  have all: "\<forall>(n, m) \<in> set ens. copies_cleanly (stored s (path m))"
    and names: "distinct (map fst ens)"
    and apart: "fst ` set ens \<inter> fst ` set d = {}"
    by simp_all
  from here apart have "n \<notin> fst ` set ens" by blast
  with names have "distinct (map fst (p # ens))" by (simp add: p)
  moreover from all clean have "\<forall>(n, m) \<in> set (p # ens). copies_cleanly (stored s (path m))"
    by (simp add: p)
  moreover from before apart new have "fst ` set (p # ens) \<inter> fst ` set (game_dir s) = {}"
    unfolding p by auto
  ultimately show ?case by simp
qed


subsection \<open>Claim C6: the game directory after a deployment\<close>

lemma clean_copies:
  "\<forall>(n, m) \<in> set ens. copies_cleanly (f m) \<Longrightarrow>
   map (\<lambda>(n, nd). (n, Some nd)) (concat (map (\<lambda>(n, m). copy_of (f m) n) ens)) =
     map (\<lambda>(n, m). (n, f m)) ens"
proof (induction ens)
  case Nil
  then show ?case by simp
next
  case (Cons p ens)
  obtain n m where p: "p = (n, m)" by (cases p)
  from Cons.prems have "copies_cleanly (f m)" by (simp add: p)
  from copy_of_clean[OF this, of n] Cons show ?case
    by (simp add: p)
qed

lemma deploy_try_unfold:
  assumes "game_mods s = Some d"
  shows "deploy_try True s =
     (case clear_directory d of
        (Some e, d') \<Rightarrow>
          (Some e,
           (logger INFO ''Clearing game mods directory''
              (logger INFO (''Starting deployment of ''
                 @ string_of_nat (length (enabled_mods (mods s))) @ '' mods'') s))
           \<lparr>game_mods := Some d'\<rparr>)
      | (None, d') \<Rightarrow>
          (case copy_mods (enabled_mods (mods s))
                  ((logger INFO ''Clearing game mods directory''
                      (logger INFO (''Starting deployment of ''
                         @ string_of_nat (length (enabled_mods (mods s))) @ '' mods'') s))
                   \<lparr>game_mods := Some d'\<rparr>) of
             (Some e, s3) \<Rightarrow> (Some e, s3)
           | (None, s3) \<Rightarrow>
               (None,
                message_box Information ''Deploy Complete''
                  (''Successfully deployed '' @ string_of_nat (length (enabled_mods (mods s)))
                     @ '' mod'' @ (if length (enabled_mods (mods s)) \<noteq> 1 then ''s'' else [])
                     @ '' to game directory'')
                  (logger INFO
                     (''Successfully deployed '' @ string_of_nat (length (enabled_mods (mods s)))
                        @ '' mod'' @ (if length (enabled_mods (mods s)) \<noteq> 1 then ''s'' else [])
                        @ '' to game directory'') s3))))"
  unfolding deploy_try_def Let_def using assms by simp

lemma deploy_try_completes:
  assumes "game_mods s = Some d" and "deploy_try True s = (None, s')"
  shows "\<exists>s3. copy_mods (enabled_mods (mods s))
                 ((logger INFO ''Clearing game mods directory''
                    (logger INFO (''Starting deployment of ''
                       @ string_of_nat (length (enabled_mods (mods s))) @ '' mods'') s))
                  \<lparr>game_mods := Some []\<rparr>) = (None, s3)
              \<and> game_mods s' = game_mods s3"
proof -
  let ?s2 = "logger INFO ''Clearing game mods directory''
               (logger INFO (''Starting deployment of ''
                  @ string_of_nat (length (enabled_mods (mods s))) @ '' mods'') s)"
  obtain r d' where c: "clear_directory d = (r, d')"
    by (cases "clear_directory d")
  obtain r2 s3 where m: "copy_mods (enabled_mods (mods s)) (?s2\<lparr>game_mods := Some d'\<rparr>) = (r2, s3)"
    by (cases "copy_mods (enabled_mods (mods s)) (?s2\<lparr>game_mods := Some d'\<rparr>)")
  have r: "r = None"
  proof (cases r)
    case None
    then show ?thesis .
  next
    case (Some e)
    with assms(2) show ?thesis
      unfolding deploy_try_unfold[OF assms(1)] c by simp
  qed
  with c have d': "d' = []"
    by (simp add: clear_directory_done)
  have r2: "r2 = None"
  proof (cases r2)
    case None
    then show ?thesis .
  next
    case (Some e)
    with assms(2) show ?thesis
      unfolding deploy_try_unfold[OF assms(1)] c r using m by simp
  qed
  have "game_mods s' = game_mods s3"
    using assms(2) unfolding deploy_try_unfold[OF assms(1)] c r using m
    by (auto simp: r2 message_box_def logger_def)
  with m r2 d' show ?thesis by auto
qed

text \<open>
  Claim C6. When the game directory exists, the dialog is confirmed and the body of
  \<open>deploy_mods\<close> ends without an exception, the game directory holds one entry for each
  mod that was enabled at the call, under the mod's folder name and in the order of the
  registry, each entry being the mod's folder from storage, and nothing else.
\<close>

theorem deploy_leaves_enabled_mods:
  assumes "game_mods s = Some d" and "deploy_try True s = (None, s')"
  shows "map (\<lambda>(n, nd). (n, Some nd)) (game_dir s') =
           map (\<lambda>(n, m). (n, stored s (path m))) (enabled_mods (mods s))
         \<and> map fst (game_dir s') = map fst (enabled_mods (mods s))
         \<and> distinct (map fst (game_dir s'))
         \<and> game_mods s' = Some (game_dir s')
         \<and> deploy_mods str True s = s'"
proof -
  let ?ens = "enabled_mods (mods s)"
  let ?s2 = "(logger INFO ''Clearing game mods directory''
               (logger INFO (''Starting deployment of '' @ string_of_nat (length ?ens) @ '' mods'') s))
             \<lparr>game_mods := Some []\<rparr>"
  from deploy_try_completes[OF assms] obtain s3
    where run: "copy_mods ?ens ?s2 = (None, s3)" and same: "game_mods s' = game_mods s3"
    by blast
  from copy_mods_success[OF run]
  have all: "\<forall>(n, m) \<in> set ?ens. copies_cleanly (stored s (path m))"
    and names: "distinct (map fst ?ens)"
    by simp_all
  have all2: "\<forall>(n, m) \<in> set ?ens. copies_cleanly (stored ?s2 (path m))"
    using all by simp
  have e1: "fst ` set ?ens \<inter> fst ` set (game_dir ?s2) = {}"
    by simp
  have e2: "game_mods ?s2 = Some (game_dir ?s2)"
    by simp
  have "copy_mods (?ens @ []) ?s2 =
      copy_mods []
        (?s2\<lparr>game_mods := Some (game_dir ?s2 @ concat (map (\<lambda>(n, m). copy_of (stored ?s2 (path m)) n) ?ens)),
            events := events ?s2 @ map (\<lambda>(n, m). Log INFO (''Deploying mod: '' @ n)) ?ens\<rparr>)"
    by (rule copy_mods_prefix[OF all2 names e1 e2])
  then have "snd (copy_mods ?ens ?s2) =
      ?s2\<lparr>game_mods := Some (game_dir ?s2 @ concat (map (\<lambda>(n, m). copy_of (stored ?s2 (path m)) n) ?ens)),
          events := events ?s2 @ map (\<lambda>(n, m). Log INFO (''Deploying mod: '' @ n)) ?ens\<rparr>"
    by simp
  then have "game_mods (snd (copy_mods ?ens ?s2)) =
      Some (concat (map (\<lambda>(n, m). copy_of (stored s (path m)) n) ?ens))"
    by simp
  then have s3: "game_mods s3 = Some (concat (map (\<lambda>(n, m). copy_of (stored s (path m)) n) ?ens))"
    unfolding run by simp
  with same have dir: "game_dir s' = concat (map (\<lambda>(n, m). copy_of (stored s (path m)) n) ?ens)"
    and some: "game_mods s' = Some (game_dir s')"
    by (simp_all add: game_dir_def)
  have copies: "map (\<lambda>(n, nd). (n, Some nd)) (game_dir s') = map (\<lambda>(n, m). (n, stored s (path m))) ?ens"
    unfolding dir by (rule clean_copies[OF all])
  then have "map fst (map (\<lambda>(n, nd). (n, Some nd)) (game_dir s')) =
      map fst (map (\<lambda>(n, m). (n, stored s (path m))) ?ens)"
    by simp
  then have keys: "map fst (game_dir s') = map fst ?ens"
    by (simp add: comp_def case_prod_unfold)
  have "deploy_mods str True s = s'"
    using assms(2) by (simp add: deploy_mods_def)
  with copies keys names some show ?thesis by simp
qed

text \<open>
  The theorem for the example with \<open>mod_b\<close> switched off: the old entries are gone, and
  the game directory holds \<open>mod_a\<close> and \<open>mod_c\<close>.
\<close>

theorem deploy_leaves_enabled_mods_witness:
  "map fst (game_dir (deploy_mods example_str True deploy_example_ok)) = [''mod_a'', ''mod_c'']"
proof -
  have "fst (deploy_try True deploy_example_ok) = None"
    by (simp add: deploy_try_def deploy_example_ok_def deploy_example_def example_mod_def
        set_enabled_def enabled_mods_def rmtree_def copytree_def stored_def game_dir_def
        logger_def message_box_def Let_def string_of_nat.simps)
  then have run: "deploy_try True deploy_example_ok = (None, snd (deploy_try True deploy_example_ok))"
    by (cases "deploy_try True deploy_example_ok") simp
  have dir: "game_mods deploy_example_ok =
      Some [(''old_mod'', DirNode [(''old.xml'', File ''o'')]), (''notes.txt'', FileNode (File ''n''))]"
    by (simp add: deploy_example_ok_def deploy_example_def)
  from deploy_leaves_enabled_mods[where str = example_str, OF dir run]
  have "map fst (game_dir (deploy_mods example_str True deploy_example_ok)) =
      map fst (enabled_mods (mods deploy_example_ok))"
    by simp
  then show ?thesis
    by (simp add: deploy_example_ok_def deploy_example_def example_mod_def set_enabled_def
        enabled_mods_def)
qed


subsection \<open>Claim C7: a copy that fails\<close>

lemma copy_of_key: "(k, nd) \<in> set (copy_of src n) \<Longrightarrow> k = n"
  by (auto simp: copy_of_def split: option.splits node.splits)

lemma keys_union: "A \<subseteq> {n} \<Longrightarrow> B \<subseteq> K \<Longrightarrow> A \<union> B \<subseteq> insert n K"
  by blast

lemma copies_keys:
  "fst ` set (concat (map (\<lambda>(n, m). copy_of (f m) n) ens)) \<subseteq> fst ` set ens"
proof (induction ens)
  case Nil
  then show ?case by simp
next
  case (Cons p ens)
  obtain n m where p: "p = (n, m)" by (cases p)
  have "fst ` set (concat (map (\<lambda>(n, m). copy_of (f m) n) (p # ens))) =
      fst ` set (copy_of (f m) n) \<union> fst ` set (concat (map (\<lambda>(n, m). copy_of (f m) n) ens))"
    by (simp add: p image_Un)
  moreover have "fst ` set (p # ens) = insert n (fst ` set ens)"
    by (simp add: p)
  ultimately show ?case
    using keys_union[OF copy_of_keys[of "f m" n] Cons.IH] by simp
qed

lemma copy_mods_stops:
  assumes "\<forall>(n, m') \<in> set pre. copies_cleanly (stored s (path m'))"
    and "\<not> copies_cleanly (stored s (path m))"
    and "distinct (map fst (pre @ [(name, m)]))"
    and "game_mods s = Some []"
  shows "copy_mods (pre @ (name, m) # post) s =
           (Some (copy_failure (stored s (path m)) name),
            s\<lparr>game_mods :=
                 Some (concat (map (\<lambda>(n, m'). copy_of (stored s (path m')) n) (pre @ [(name, m)]))),
               events :=
                 events s @ map (\<lambda>(n, m'). Log INFO (''Deploying mod: '' @ n)) (pre @ [(name, m)])\<rparr>)"
proof -
  let ?copies = "concat (map (\<lambda>(n, m'). copy_of (stored s (path m')) n) pre)"
  let ?sp = "s\<lparr>game_mods := Some (game_dir s @ ?copies),
               events := events s @ map (\<lambda>(n, m'). Log INFO (''Deploying mod: '' @ n)) pre\<rparr>"
  have empty: "game_dir s = []"
    using assms(4) by (simp add: game_dir_def)
  have names: "distinct (map fst pre)" and other: "name \<notin> fst ` set pre"
    using assms(3) by simp_all
  have e1: "fst ` set pre \<inter> fst ` set (game_dir s) = {}"
    by (simp add: empty)
  have e2: "game_mods s = Some (game_dir s)"
    using assms(4) by (simp add: empty)
  have first: "copy_mods (pre @ (name, m) # post) s = copy_mods ((name, m) # post) ?sp"
    by (rule copy_mods_prefix[OF assms(1) names e1 e2])
  have "game_dir ?sp = ?copies"
    by (simp add: empty)
  with copies_keys[of "\<lambda>m'. stored s (path m')" pre]
  have "fst ` set (game_dir ?sp) \<subseteq> fst ` set pre"
    by simp
  with other have new: "name \<notin> fst ` set (game_dir ?sp)"
    by blast
  have bad: "\<not> copies_cleanly (stored (logger INFO (''Deploying mod: '' @ name) ?sp) (path m))"
    using assms(2) by simp
  have new': "name \<notin> fst ` set (game_dir (logger INFO (''Deploying mod: '' @ name) ?sp))"
    using new by simp
  have "copy_mods ((name, m) # post) ?sp =
      (Some (copy_failure (stored s (path m)) name),
       (logger INFO (''Deploying mod: '' @ name) ?sp)
       \<lparr>game_mods := Some (game_dir ?sp @ copy_of (stored s (path m)) name)\<rparr>)"
    using copytree_partial[OF bad new'] by (simp add: Let_def)
  then show ?thesis
    unfolding first by (simp add: logger_def empty)
qed

text \<open>
  Claim C7, as amended. Let the game directory exist and its clearing succeed, and let the
  copy of one enabled mod be the first that is not complete. Then the game directory holds
  the complete copies of the enabled mods before it, in their order, followed by what
  \<open>copytree\<close> left of the failing mod (a folder with the files that could be copied, or
  nothing when the source could not be scanned), and nothing else: no entry from before
  the deployment and no later mod. The log ends with the error, which is also shown in a
  message box; the mods after the failing one are not attempted.
\<close>

theorem failed_copy_stops_deployment:
  assumes "game_mods s = Some d" and "clear_directory d = (None, d')"
    and "registry_ok (mods s)"
    and "enabled_mods (mods s) = pre @ (name, m) # post"
    and "\<forall>(n, m') \<in> set pre. copies_cleanly (stored s (path m'))"
    and "\<not> copies_cleanly (stored s (path m))"
  shows "game_mods (deploy_mods str True s) =
           Some (concat (map (\<lambda>(n, m'). copy_of (stored s (path m')) n) (pre @ [(name, m)])))
         \<and> events (deploy_mods str True s) =
             events s
             @ [Log INFO (''Starting deployment of ''
                   @ string_of_nat (length (pre @ (name, m) # post)) @ '' mods''),
                Log INFO ''Clearing game mods directory'']
             @ map (\<lambda>(n, m'). Log INFO (''Deploying mod: '' @ n)) (pre @ [(name, m)])
             @ [Log ERROR (''Failed to deploy mods: '' @ str (copy_failure (stored s (path m)) name)),
                MessageBox Critical ''Deploy Error''
                  (''Failed to deploy mods: '' @ str (copy_failure (stored s (path m)) name))]
         \<and> fst ` set (game_dir (deploy_mods str True s)) \<subseteq> fst ` set (pre @ [(name, m)])
         \<and> fst ` set post \<inter> fst ` set (game_dir (deploy_mods str True s)) = {}"
proof -
  let ?s2 = "(logger INFO ''Clearing game mods directory''
               (logger INFO (''Starting deployment of ''
                  @ string_of_nat (length (enabled_mods (mods s))) @ '' mods'') s))
             \<lparr>game_mods := Some []\<rparr>"
  let ?done = "pre @ [(name, m)]"
  let ?copies = "concat (map (\<lambda>(n, m'). copy_of (stored s (path m')) n) ?done)"
  have d': "d' = []"
    using assms(2) by (rule clear_directory_done)
  have "distinct (map fst (enabled_mods (mods s)))"
    using assms(3) by (simp add: registry_ok_def enabled_mods_def distinct_map_filter)
  then have all_names: "distinct (map fst (pre @ (name, m) # post))"
    by (simp only: assms(4))
  then have names: "distinct (map fst ?done)"
    by auto
  have later: "fst ` set post \<inter> fst ` set ?done = {}"
    using all_names by auto
  have clean: "\<forall>(n, m') \<in> set pre. copies_cleanly (stored ?s2 (path m'))"
    using assms(5) by simp
  have bad: "\<not> copies_cleanly (stored ?s2 (path m))"
    using assms(6) by simp
  have loop: "copy_mods (pre @ (name, m) # post) ?s2 =
      (Some (copy_failure (stored ?s2 (path m)) name),
       ?s2\<lparr>game_mods := Some (concat (map (\<lambda>(n, m'). copy_of (stored ?s2 (path m')) n) ?done)),
           events := events ?s2 @ map (\<lambda>(n, m'). Log INFO (''Deploying mod: '' @ n)) ?done\<rparr>)"
    by (rule copy_mods_stops[OF clean bad names]) simp
  have body: "deploy_try True s =
      (Some (copy_failure (stored s (path m)) name),
       ?s2\<lparr>game_mods := Some ?copies,
           events := events ?s2 @ map (\<lambda>(n, m'). Log INFO (''Deploying mod: '' @ n)) ?done\<rparr>)"
    unfolding deploy_try_unfold[OF assms(1)] assms(2) d' using loop
    by (simp add: assms(4))
  have dir: "game_mods (deploy_mods str True s) = Some ?copies"
    unfolding deploy_mods_def body by (simp add: message_box_def logger_def)
  have log: "events (deploy_mods str True s) =
      events s
      @ [Log INFO (''Starting deployment of ''
            @ string_of_nat (length (pre @ (name, m) # post)) @ '' mods''),
         Log INFO ''Clearing game mods directory'']
      @ map (\<lambda>(n, m'). Log INFO (''Deploying mod: '' @ n)) ?done
      @ [Log ERROR (''Failed to deploy mods: '' @ str (copy_failure (stored s (path m)) name)),
         MessageBox Critical ''Deploy Error''
           (''Failed to deploy mods: '' @ str (copy_failure (stored s (path m)) name))]"
    unfolding deploy_mods_def body by (simp add: message_box_def logger_def assms(4))
  have keys: "fst ` set (game_dir (deploy_mods str True s)) \<subseteq> fst ` set ?done"
    using copies_keys[of "\<lambda>m'. stored s (path m')" ?done] dir by (simp add: game_dir_def)
  from later keys have "fst ` set post \<inter> fst ` set (game_dir (deploy_mods str True s)) = {}"
    by blast
  with dir log keys show ?thesis by simp
qed

text \<open>
  The theorem for the example: \<open>mod_a\<close> is copied, the copy of \<open>mod_b\<close> fails and leaves
  the one file that could be read, \<open>mod_c\<close> is not copied, the old entries are gone.
\<close>

theorem failed_copy_stops_deployment_witness:
  "game_mods (deploy_mods example_str True deploy_example) =
     Some [(''mod_a'', DirNode [(''a.xml'', File ''a'')]),
           (''mod_b'', DirNode [(''b.xml'', File ''b'')])]"
proof -
  have hyps: "game_mods deploy_example =
      Some [(''old_mod'', DirNode [(''old.xml'', File ''o'')]), (''notes.txt'', FileNode (File ''n''))]"
    "clear_directory [(''old_mod'', DirNode [(''old.xml'', File ''o'')]), (''notes.txt'', FileNode (File ''n''))]
      = (None, [])"
    "registry_ok (mods deploy_example)"
    "enabled_mods (mods deploy_example) =
      [(''mod_a'', example_mod ''mod_a'' ''Mod A'' {|''a.xml''|} True)]
      @ (''mod_b'', example_mod ''mod_b'' ''Mod B'' {|''b.xml''|} True)
      # [(''mod_c'', example_mod ''mod_c'' ''Mod C'' {|''c.xml''|} True)]"
    "\<forall>(n, m') \<in> set [(''mod_a'', example_mod ''mod_a'' ''Mod A'' {|''a.xml''|} True)].
        copies_cleanly (stored deploy_example (path m'))"
    "\<not> copies_cleanly (stored deploy_example (path (example_mod ''mod_b'' ''Mod B'' {|''b.xml''|} True)))"
    by (simp_all add: deploy_example_def example_mod_def rmtree_def registry_ok_def enabled_mods_def
        copies_cleanly_def stored_def)
  from failed_copy_stops_deployment[where str = example_str, OF hyps]
  have "game_mods (deploy_mods example_str True deploy_example) =
      Some (concat (map (\<lambda>(n, m'). copy_of (stored deploy_example (path m')) n)
        ([(''mod_a'', example_mod ''mod_a'' ''Mod A'' {|''a.xml''|} True)]
         @ [(''mod_b'', example_mod ''mod_b'' ''Mod B'' {|''b.xml''|} True)])))"
    by simp
  then show ?thesis
    by (simp add: deploy_example_def example_mod_def copy_of_def stored_def)
qed

text \<open>
  Claim C7 as stated fails: with \<open>mod_a\<close> switched off, the first copy is the one that
  fails, so no mod has been copied before the failure; yet the game directory is not
  empty afterwards, it holds the part of \<open>mod_b\<close> that could be copied.
\<close>

theorem failed_copy_leaves_part_counterexample:
  "map fst (enabled_mods (mods deploy_example_first)) = [''mod_b'', ''mod_c'']
   \<and> fst (deploy_try True deploy_example_first) = Some (ShutilError [''big.bin''])
   \<and> game_mods (deploy_mods example_str True deploy_example_first) =
       Some [(''mod_b'', DirNode [(''b.xml'', File ''b'')])]"
  by (simp add: deploy_mods_def deploy_try_def deploy_example_first_def deploy_example_def
      example_mod_def set_enabled_def enabled_mods_def rmtree_def copytree_def stored_def
      game_dir_def logger_def message_box_def Let_def)


end
